theory Spec2Isabelle
  imports Complex_Main "HOL-Library.Word"
begin

section \<open>Values, tables and errors\<close>

text \<open>
  A cell of a pandas table: missing (\<open>NaN\<close>), a number of an int64 column, a number of
  a float64 column, or text. An int64 number is a 64-bit word read as signed, so that
  its arithmetic wraps as that of numpy does. A float64 number is modelled as a real:
  the rounding and the infinities of float64 are not modelled, and neither are boolean
  cells. The same type serves for the scalars of Python: Python's own integers (a
  length, the constant 0) are exact and are written \<open>Num\<close>.
\<close>

datatype pyval = NaN | I64 "64 word" | Num real | Str string

definition is_int :: "pyval \<Rightarrow> bool" where
  "is_int c = (case c of I64 w \<Rightarrow> True | _ \<Rightarrow> False)"

definition is_text :: "pyval \<Rightarrow> bool" where
  "is_text c = (case c of Str s \<Rightarrow> True | _ \<Rightarrow> False)"

definition is_number :: "pyval \<Rightarrow> bool" where
  "is_number c = (case c of I64 w \<Rightarrow> True | Num x \<Rightarrow> True | _ \<Rightarrow> False)"

text \<open>The value of a number; an int64 number is read as signed.\<close>

definition to_real :: "pyval \<Rightarrow> real" where
  "to_real c = (case c of I64 w \<Rightarrow> real_of_int (sint w) | Num x \<Rightarrow> x | _ \<Rightarrow> 0)"

text \<open>
  A DataFrame: the column labels in order, and the rows in order, each row holding one
  cell per column.
\<close>

record dataframe =
  columns :: "string list"
  rows :: "pyval list list"

definition wf_frame :: "dataframe \<Rightarrow> bool" where
  "wf_frame df = list_all (\<lambda>r. length r = length (columns df)) (rows df)"

text \<open>\<^verbatim>\<open>df.empty\<close>: some axis has length zero.\<close>

definition empty_frame :: "dataframe \<Rightarrow> bool" where
  "empty_frame df = (columns df = [] \<or> rows df = [])"

datatype py_error =
  RequestException | EmptyDataError | ParserError
  | IndexError | ValueError | KeyError | TypeError

text \<open>The calls of \<^verbatim>\<open>st.error\<close> made by the two loaders, one constructor per message.\<close>

datatype ui_event = NetworkFailed | CsvEmpty | LoadFailed | CannotRead

section \<open>Header names\<close>

text \<open>
  The headers are Chinese text; a string is the list of the bytes of its UTF-8 encoding.
  In schema order: stock code, stock name, monthly amount, deduction day, broker discount;
  then the two derived columns, annual amount and estimated annual fee.
\<close>

definition col_ticker :: string where
  "col_ticker = [CHR 0xE8, CHR 0x82, CHR 0xA1, CHR 0xE7, CHR 0xA5, CHR 0xA8,
                 CHR 0xE4, CHR 0xBB, CHR 0xA3, CHR 0xE8, CHR 0x99, CHR 0x9F]"

definition col_name :: string where
  "col_name = [CHR 0xE8, CHR 0x82, CHR 0xA1, CHR 0xE7, CHR 0xA5, CHR 0xA8,
               CHR 0xE5, CHR 0x90, CHR 0x8D, CHR 0xE7, CHR 0xA8, CHR 0xB1]"

definition col_monthly :: string where
  "col_monthly = [CHR 0xE6, CHR 0xAF, CHR 0x8F, CHR 0xE6, CHR 0x9C, CHR 0x88,
                  CHR 0xE6, CHR 0x8A, CHR 0x95, CHR 0xE5, CHR 0x85, CHR 0xA5,
                  CHR 0xE9, CHR 0x87, CHR 0x91, CHR 0xE9, CHR 0xA1, CHR 0x8D]"

definition col_day :: string where
  "col_day = [CHR 0xE6, CHR 0x89, CHR 0xA3, CHR 0xE6, CHR 0xAC, CHR 0xBE,
              CHR 0xE6, CHR 0x97, CHR 0xA5]"

definition col_discount :: string where
  "col_discount = [CHR 0xE5, CHR 0x88, CHR 0xB8, CHR 0xE5, CHR 0x95, CHR 0x86,
                   CHR 0xE6, CHR 0x8A, CHR 0x98, CHR 0xE6, CHR 0x89, CHR 0xA3]"

definition col_annual :: string where
  "col_annual = [CHR 0xE5, CHR 0xB9, CHR 0xB4, CHR 0xE5, CHR 0xBA, CHR 0xA6,
                 CHR 0xE6, CHR 0x8A, CHR 0x95, CHR 0xE5, CHR 0x85, CHR 0xA5,
                 CHR 0xE9, CHR 0x87, CHR 0x91, CHR 0xE9, CHR 0xA1, CHR 0x8D]"

definition col_fee :: string where
  "col_fee = [CHR 0xE9, CHR 0xA0, CHR 0x90, CHR 0xE4, CHR 0xBC, CHR 0xB0,
              CHR 0xE5, CHR 0xB9, CHR 0xB4, CHR 0xE5, CHR 0xBA, CHR 0xA6,
              CHR 0xE6, CHR 0x89, CHR 0x8B, CHR 0xE7, CHR 0xBA, CHR 0x8C,
              CHR 0xE8, CHR 0xB2, CHR 0xBB]"

definition expected_columns :: "string list" where
  "expected_columns = [col_ticker, col_name, col_monthly, col_day, col_discount]"

section \<open>The pandas operations the loaders use\<close>

text \<open>
  \<^verbatim>\<open>str.strip()\<close>: leading and trailing whitespace characters removed. A string is
  the list of the bytes of its UTF-8 encoding, so a whitespace character is a sequence
  of one to three bytes. These are the encodings of the 29 characters for which
  \<^verbatim>\<open>str.isspace()\<close> holds: U+0009 to U+000D, U+001C to U+0020, U+0085, U+00A0, U+1680,
  U+2000 to U+200A, U+2028, U+2029, U+202F, U+205F and U+3000.
\<close>

definition whitespace :: "string list" where
  "whitespace =
     [[CHR 0x09],
      [CHR 0x0A],
      [CHR 0x0B],
      [CHR 0x0C],
      [CHR 0x0D],
      [CHR 0x1C],
      [CHR 0x1D],
      [CHR 0x1E],
      [CHR 0x1F],
      [CHR 0x20],
      [CHR 0xC2, CHR 0x85],
      [CHR 0xC2, CHR 0xA0],
      [CHR 0xE1, CHR 0x9A, CHR 0x80],
      [CHR 0xE2, CHR 0x80, CHR 0x80],
      [CHR 0xE2, CHR 0x80, CHR 0x81],
      [CHR 0xE2, CHR 0x80, CHR 0x82],
      [CHR 0xE2, CHR 0x80, CHR 0x83],
      [CHR 0xE2, CHR 0x80, CHR 0x84],
      [CHR 0xE2, CHR 0x80, CHR 0x85],
      [CHR 0xE2, CHR 0x80, CHR 0x86],
      [CHR 0xE2, CHR 0x80, CHR 0x87],
      [CHR 0xE2, CHR 0x80, CHR 0x88],
      [CHR 0xE2, CHR 0x80, CHR 0x89],
      [CHR 0xE2, CHR 0x80, CHR 0x8A],
      [CHR 0xE2, CHR 0x80, CHR 0xA8],
      [CHR 0xE2, CHR 0x80, CHR 0xA9],
      [CHR 0xE2, CHR 0x80, CHR 0xAF],
      [CHR 0xE2, CHR 0x81, CHR 0x9F],
      [CHR 0xE3, CHR 0x80, CHR 0x80]]"

text \<open>The rest of a string after one leading sequence out of \<open>seqs\<close>, if it has one.\<close>

definition leading_ws :: "string list \<Rightarrow> string \<Rightarrow> string option" where
  "leading_ws seqs s =
     (case filter (\<lambda>w. take (length w) s = w) seqs of
        [] \<Rightarrow> None
      | w # ws \<Rightarrow> Some (drop (length w) s))"

function drop_ws :: "string list \<Rightarrow> string \<Rightarrow> string" where
  "drop_ws seqs s =
     (case leading_ws seqs s of
        None \<Rightarrow> s
      | Some r \<Rightarrow> if length r < length s then drop_ws seqs r else s)"
  by pat_completeness auto
termination
  by (relation "measure (\<lambda>(seqs, s). length s)") auto

text \<open>Trailing whitespace is leading whitespace of the reversed bytes, each sequence
  reversed.\<close>

definition strip :: "string \<Rightarrow> string" where
  "strip s = rev (drop_ws (map rev whitespace) (rev (drop_ws whitespace s)))"

definition strip_columns :: "dataframe \<Rightarrow> dataframe" where
  "strip_columns df = df\<lparr>columns := map strip (columns df)\<rparr>"

definition notna :: "pyval \<Rightarrow> bool" where
  "notna c = (c \<noteq> NaN)"

text \<open>\<^verbatim>\<open>df.dropna(how='all')\<close>: a row stays when some cell of it is present.\<close>

definition dropna_all :: "dataframe \<Rightarrow> dataframe" where
  "dropna_all df = df\<lparr>rows := filter (\<lambda>r. list_ex notna r) (rows df)\<rparr>"

text \<open>
  \<^verbatim>\<open>df[df.iloc[:, 0].notna() & df.iloc[:, 1].notna()]\<close>: the positional selection of
  column 0, then of column 1, raises IndexError when the table has no such column.
\<close>

definition filter_ticker_name :: "dataframe \<Rightarrow> py_error + dataframe" where
  "filter_ticker_name df =
     (if length (columns df) < 1 then Inl IndexError
      else if length (columns df) < 2 then Inl IndexError
      else Inr (df\<lparr>rows := filter (\<lambda>r. notna (r ! 0) \<and> notna (r ! 1)) (rows df)\<rparr>))"

text \<open>
  \<^verbatim>\<open>df.columns = names\<close>: pandas raises ValueError (length mismatch) unless there is
  one name per column.
\<close>

definition set_columns :: "string list \<Rightarrow> dataframe \<Rightarrow> py_error + dataframe" where
  "set_columns names df =
     (if length names = length (columns df) then Inr (df\<lparr>columns := names\<rparr>)
      else Inl ValueError)"

definition standardize_columns :: "dataframe \<Rightarrow> py_error + dataframe" where
  "standardize_columns df =
     (if length (columns df) \<ge> length expected_columns
      then set_columns (take (length (columns df)) expected_columns) df
      else Inr df)"

text \<open>
  \<^verbatim>\<open>df[name]\<close> used as a series. A label that no column bears raises KeyError. A label
  that several columns bear selects a table instead of a series; \<^verbatim>\<open>pd.to_numeric\<close>
  raises TypeError on it, and the model reports every such use as TypeError.
\<close>

definition col_positions :: "string \<Rightarrow> string list \<Rightarrow> nat list" where
  "col_positions n cs = filter (\<lambda>i. cs ! i = n) [0..<length cs]"

definition get_col :: "string \<Rightarrow> dataframe \<Rightarrow> py_error + pyval list" where
  "get_col n df =
     (case col_positions n (columns df) of
        [] \<Rightarrow> Inl KeyError
      | [i] \<Rightarrow> Inr (map (\<lambda>r. r ! i) (rows df))
      | _ \<Rightarrow> Inl TypeError)"

text \<open>
  \<^verbatim>\<open>df[name] = series\<close>: every column bearing the label takes the values of the series;
  when no column bears it, a new last column is added.
\<close>

definition set_col :: "string \<Rightarrow> pyval list \<Rightarrow> dataframe \<Rightarrow> dataframe" where
  "set_col n vs df =
     (if n \<in> set (columns df)
      then df\<lparr>rows := map2 (\<lambda>r v. map2 (\<lambda>c x. if c = n then v else x) (columns df) r)
                          (rows df) vs\<rparr>
      else df\<lparr>columns := columns df @ [n], rows := map2 (\<lambda>r v. r @ [v]) (rows df) vs\<rparr>)"

text \<open>
  \<^verbatim>\<open>pd.to_numeric(series, errors='coerce')\<close>. The number parser of pandas is a
  parameter \<open>parse\<close>: it reads a text as an integer or as a float, and \<open>None\<close> is a
  text that is no number. Cell by cell, a number stays, a text is parsed and becomes
  missing when it is no number. The series is an int64 series when every cell is an
  integer then; otherwise it is a float64 series and its integers become floats.
\<close>

datatype parsed = ParsedInt "64 word" | ParsedFloat real

definition to_numeric :: "(string \<Rightarrow> parsed option) \<Rightarrow> pyval \<Rightarrow> pyval" where
  "to_numeric parse c =
     (case c of
        NaN \<Rightarrow> NaN
      | I64 w \<Rightarrow> I64 w
      | Num x \<Rightarrow> Num x
      | Str s \<Rightarrow>
          (case parse s of
             None \<Rightarrow> NaN
           | Some (ParsedInt w) \<Rightarrow> I64 w
           | Some (ParsedFloat x) \<Rightarrow> Num x))"

definition as_float :: "pyval \<Rightarrow> pyval" where
  "as_float c = (case c of I64 w \<Rightarrow> Num (real_of_int (sint w)) | _ \<Rightarrow> c)"

definition to_numeric_series :: "(string \<Rightarrow> parsed option) \<Rightarrow> pyval list \<Rightarrow> pyval list" where
  "to_numeric_series parse s =
     (let cs = map (to_numeric parse) s
      in if list_all is_int cs then cs else map as_float cs)"

text \<open>\<^verbatim>\<open>fillna(0)\<close> on one cell of a numeric series: only a float64 series has
  missing cells.\<close>

definition fillna0 :: "pyval \<Rightarrow> pyval" where
  "fillna0 c = (case c of NaN \<Rightarrow> Num 0 | _ \<Rightarrow> c)"

text \<open>
  The arithmetic of numpy on two numbers: two int64 operands give an int64 result, which
  wraps; any other pair of numbers gives a float64 result; true division always gives a
  float64 result. A missing operand gives a missing result. Text operands do not reach
  these operations: the callers apply them to coerced columns, or raise TypeError
  before. The callers divide by the constant 100 or by a difference of two numbers that
  they have tested to be different.
\<close>

definition pv_mul :: "pyval \<Rightarrow> pyval \<Rightarrow> pyval" where
  "pv_mul a b =
     (case (a, b) of
        (I64 x, I64 y) \<Rightarrow> I64 (x * y)
      | _ \<Rightarrow> if is_number a \<and> is_number b then Num (to_real a * to_real b) else NaN)"

definition pv_sub :: "pyval \<Rightarrow> pyval \<Rightarrow> pyval" where
  "pv_sub a b =
     (case (a, b) of
        (I64 x, I64 y) \<Rightarrow> I64 (x - y)
      | _ \<Rightarrow> if is_number a \<and> is_number b then Num (to_real a - to_real b) else NaN)"

definition pv_truediv :: "pyval \<Rightarrow> pyval \<Rightarrow> pyval" where
  "pv_truediv a b =
     (if is_number a \<and> is_number b then Num (to_real a / to_real b) else NaN)"

section \<open>The recurring-plan loader (jason.py)\<close>

text \<open>Lines 107 to 114: one numeric column, coerced and filled when it is present.\<close>

definition coerce_fill ::
  "(string \<Rightarrow> parsed option) \<Rightarrow> string \<Rightarrow> dataframe \<Rightarrow> py_error + dataframe" where
  "coerce_fill parse n df =
     (if n \<in> set (columns df)
      then (case get_col n df of
              Inl e \<Rightarrow> Inl e
            | Inr s \<Rightarrow> Inr (set_col n (map fillna0 (to_numeric_series parse s)) df))
      else Inr df)"

text \<open>Lines 117 and 118: the two derived columns. The constants 12 and 100 are Python
  integers, which numpy takes as int64 operands.\<close>

definition add_derived :: "dataframe \<Rightarrow> py_error + dataframe" where
  "add_derived df =
     (case get_col col_monthly df of
        Inl e \<Rightarrow> Inl e
      | Inr m \<Rightarrow>
          (let df1 = set_col col_annual (map (\<lambda>x. pv_mul x (I64 12)) m) df in
           case get_col col_discount df1 of
             Inl e \<Rightarrow> Inl e
           | Inr d \<Rightarrow>
               (case get_col col_annual df1 of
                  Inl e \<Rightarrow> Inl e
                | Inr a \<Rightarrow>
                    Inr (set_col col_fee
                           (map2 (\<lambda>x y. pv_mul (pv_truediv x (I64 100)) y) d a) df1))))"

text \<open>
  Lines 95 to 120, the body of the \<^verbatim>\<open>try\<close> after the CSV text is parsed: each step
  either raises or hands its table to the next.
\<close>

definition load_body :: "(string \<Rightarrow> parsed option) \<Rightarrow> dataframe \<Rightarrow> py_error + dataframe" where
  "load_body parse df0 =
     (case filter_ticker_name (dropna_all (strip_columns df0)) of
        Inl e \<Rightarrow> Inl e
      | Inr df1 \<Rightarrow>
     (case standardize_columns df1 of
        Inl e \<Rightarrow> Inl e
      | Inr df2 \<Rightarrow>
     (case coerce_fill parse col_monthly df2 of
        Inl e \<Rightarrow> Inl e
      | Inr df3 \<Rightarrow>
     (case coerce_fill parse col_day df3 of
        Inl e \<Rightarrow> Inl e
      | Inr df4 \<Rightarrow>
     (case coerce_fill parse col_discount df4 of
        Inl e \<Rightarrow> Inl e
      | Inr df5 \<Rightarrow> add_derived df5)))))"

text \<open>The three \<^verbatim>\<open>except\<close> clauses, in order: each reports and returns None.\<close>

definition handler_event :: "py_error \<Rightarrow> ui_event" where
  "handler_event e =
     (if e = RequestException then NetworkFailed
      else if e = EmptyDataError then CsvEmpty
      else LoadFailed)"

text \<open>
  \<^verbatim>\<open>load_investment_data\<close>. The argument is the outcome of lines 86 to 92 (the HTTP
  request, the status check and \<^verbatim>\<open>pd.read_csv\<close>): the error raised, or the parsed
  table. The result is the list of messages shown and the value returned.
\<close>

definition load_investment_data ::
  "(string \<Rightarrow> parsed option) \<Rightarrow> py_error + dataframe \<Rightarrow> ui_event list \<times> dataframe option" where
  "load_investment_data parse response =
     (case (case response of Inl e \<Rightarrow> Inl e | Inr df \<Rightarrow> load_body parse df) of
        Inl e \<Rightarrow> ([handler_event e], None)
      | Inr t \<Rightarrow> ([], Some t))"

section \<open>The summary of the recurring-plan table (jason.py)\<close>

text \<open>
  \<^verbatim>\<open>Series.sum()\<close>. The sum of an int64 series is an int64 number: it wraps. The sum
  of a float64 series skips the missing cells. A series of texts only is concatenated;
  a text among other cells raises TypeError.
\<close>

definition the_int :: "pyval \<Rightarrow> 64 word" where
  "the_int c = (case c of I64 w \<Rightarrow> w | _ \<Rightarrow> 0)"

definition the_text :: "pyval \<Rightarrow> string" where
  "the_text c = (case c of Str s \<Rightarrow> s | _ \<Rightarrow> [])"

definition series_sum :: "pyval list \<Rightarrow> py_error + pyval" where
  "series_sum cs =
     (if cs \<noteq> [] \<and> list_all is_text cs then Inr (Str (concat (map the_text cs)))
      else if list_ex is_text cs then Inl TypeError
      else if list_all is_int cs then Inr (I64 (sum_list (map the_int cs)))
      else Inr (Num (sum_list (map to_real (filter notna cs)))))"

text \<open>
  \<^verbatim>\<open>Series.mean()\<close> skips the missing cells and accumulates in float64, also over an
  int64 series; the mean of no cell is NaN, and a text cell raises TypeError.
\<close>

definition series_mean :: "pyval list \<Rightarrow> py_error + pyval" where
  "series_mean cs =
     (if list_ex is_text cs then Inl TypeError
      else (let xs = map to_real (filter notna cs)
            in Inr (if xs = [] then NaN else Num (sum_list xs / real (length xs)))))"

definition col_sum :: "string \<Rightarrow> dataframe \<Rightarrow> py_error + pyval" where
  "col_sum n df = (case get_col n df of Inl e \<Rightarrow> Inl e | Inr s \<Rightarrow> series_sum s)"

definition col_mean :: "string \<Rightarrow> dataframe \<Rightarrow> py_error + pyval" where
  "col_mean n df = (case get_col n df of Inl e \<Rightarrow> Inl e | Inr s \<Rightarrow> series_mean s)"

text \<open>The keys of the summary: count of stocks, monthly total, annual total, mean broker
  discount, total estimated fee, fee savings.\<close>

definition key_count :: string where
  "key_count = [CHR 0xE7, CHR 0xB8, CHR 0xBD, CHR 0xE8, CHR 0x82, CHR 0xA1,
                CHR 0xE7, CHR 0xA5, CHR 0xA8, CHR 0xE6, CHR 0x95, CHR 0xB8]"

definition key_monthly_total :: string where
  "key_monthly_total = [CHR 0xE6, CHR 0xAF, CHR 0x8F, CHR 0xE6, CHR 0x9C, CHR 0x88,
                        CHR 0xE7, CHR 0xB8, CHR 0xBD, CHR 0xE6, CHR 0x8A, CHR 0x95,
                        CHR 0xE5, CHR 0x85, CHR 0xA5]"

definition key_annual_total :: string where
  "key_annual_total = [CHR 0xE5, CHR 0xB9, CHR 0xB4, CHR 0xE5, CHR 0xBA, CHR 0xA6,
                       CHR 0xE7, CHR 0xB8, CHR 0xBD, CHR 0xE6, CHR 0x8A, CHR 0x95,
                       CHR 0xE5, CHR 0x85, CHR 0xA5]"

definition key_mean_discount :: string where
  "key_mean_discount = [CHR 0xE5, CHR 0xB9, CHR 0xB3, CHR 0xE5, CHR 0x9D, CHR 0x87,
                        CHR 0xE5, CHR 0x88, CHR 0xB8, CHR 0xE5, CHR 0x95, CHR 0x86,
                        CHR 0xE6, CHR 0x8A, CHR 0x98, CHR 0xE6, CHR 0x89, CHR 0xA3]"

definition key_fee_total :: string where
  "key_fee_total = [CHR 0xE7, CHR 0xB8, CHR 0xBD, CHR 0xE9, CHR 0xA0, CHR 0x90,
                    CHR 0xE4, CHR 0xBC, CHR 0xB0, CHR 0xE6, CHR 0x89, CHR 0x8B,
                    CHR 0xE7, CHR 0xBA, CHR 0x8C, CHR 0xE8, CHR 0xB2, CHR 0xBB]"

definition key_savings :: string where
  "key_savings = [CHR 0xE6, CHR 0x89, CHR 0x8B, CHR 0xE7, CHR 0xBA, CHR 0x8C,
                  CHR 0xE8, CHR 0xB2, CHR 0xBB, CHR 0xE7, CHR 0xAF, CHR 0x80,
                  CHR 0xE7, CHR 0x9C, CHR 0x81]"

definition standard_fee :: real where
  "standard_fee = 1425 / 10000"

text \<open>\<^verbatim>\<open>x > 0\<close> on a float: false on NaN.\<close>

definition pv_positive :: "pyval \<Rightarrow> bool" where
  "pv_positive c = (case c of Num x \<Rightarrow> x > 0 | I64 w \<Rightarrow> sint w > 0 | _ \<Rightarrow> False)"

text \<open>Lines 158 to 161: \<^verbatim>\<open>((standard_fee - mean) / 100) * annual_total\<close> when the mean
  is positive, else the Python integer 0. A float times a text raises TypeError.\<close>

definition fee_savings :: "pyval \<Rightarrow> pyval \<Rightarrow> py_error + pyval" where
  "fee_savings mean_discount annual_total =
     (if pv_positive mean_discount
      then (if is_text annual_total then Inl TypeError
            else Inr (pv_mul (pv_truediv (pv_sub (Num standard_fee) mean_discount) (I64 100))
                             annual_total))
      else Inr (Num 0))"

text \<open>
  \<^verbatim>\<open>calculate_investment_summary\<close>: the dictionary returned, a map from keys to
  values; \<open>None\<close> as argument is Python's None.
\<close>

definition calculate_investment_summary ::
  "dataframe option \<Rightarrow> py_error + (string \<rightharpoonup> pyval)" where
  "calculate_investment_summary dfo =
     (case dfo of
        None \<Rightarrow> Inr Map.empty
      | Some df \<Rightarrow>
          if empty_frame df then Inr Map.empty
          else
            (case col_sum col_monthly df of Inl e \<Rightarrow> Inl e | Inr monthly_total \<Rightarrow>
            (case col_sum col_annual df of Inl e \<Rightarrow> Inl e | Inr annual_total \<Rightarrow>
            (case col_mean col_discount df of Inl e \<Rightarrow> Inl e | Inr mean_discount \<Rightarrow>
            (case col_sum col_fee df of Inl e \<Rightarrow> Inl e | Inr fee_total \<Rightarrow>
            (case fee_savings mean_discount annual_total of Inl e \<Rightarrow> Inl e | Inr savings \<Rightarrow>
               Inr [key_count \<mapsto> Num (real (length (rows df))),
                    key_monthly_total \<mapsto> monthly_total,
                    key_annual_total \<mapsto> annual_total,
                    key_mean_discount \<mapsto> mean_discount,
                    key_fee_total \<mapsto> fee_total,
                    key_savings \<mapsto> savings]))))))"

section \<open>The portfolio dashboard (the second script of the repository)\<close>

text \<open>Headers: shares held, cost price, current price, market value, profit or loss
  amount, profit or loss percentage.\<close>

definition col_shares :: string where
  "col_shares = [CHR 0xE6, CHR 0x8C, CHR 0x81, CHR 0xE8, CHR 0x82, CHR 0xA1,
                 CHR 0xE6, CHR 0x95, CHR 0xB8, CHR 0xE9, CHR 0x87, CHR 0x8F]"

definition col_cost :: string where
  "col_cost = [CHR 0xE6, CHR 0x88, CHR 0x90, CHR 0xE6, CHR 0x9C, CHR 0xAC,
               CHR 0xE5, CHR 0x83, CHR 0xB9]"

definition col_price :: string where
  "col_price = [CHR 0xE7, CHR 0x8F, CHR 0xBE, CHR 0xE5, CHR 0x83, CHR 0xB9]"

definition col_value :: string where
  "col_value = [CHR 0xE5, CHR 0xB8, CHR 0x82, CHR 0xE5, CHR 0x80, CHR 0xBC]"

definition col_pl :: string where
  "col_pl = [CHR 0xE7, CHR 0x9B, CHR 0x88, CHR 0xE8, CHR 0x99, CHR 0xA7,
             CHR 0xE9, CHR 0x87, CHR 0x91, CHR 0xE9, CHR 0xA1, CHR 0x8D]"

definition col_pl_pct :: string where
  "col_pl_pct = [CHR 0xE7, CHR 0x9B, CHR 0x88, CHR 0xE8, CHR 0x99, CHR 0xA7,
                 CHR 0xE6, CHR 0xAF, CHR 0x94, CHR 0xE4, CHR 0xBE, CHR 0x8B]"

text \<open>\<^verbatim>\<open>create_sample_data\<close>: six fixed holdings; the names are Chinese company names.
  The columns built from Python integers are int64 columns.\<close>

definition create_sample_data :: dataframe where
  "create_sample_data =
     \<lparr>columns = [col_ticker, col_name, col_shares, col_cost, col_price, col_value,
                 col_pl, col_pl_pct],
      rows =
        [[Str ''2330'',
          Str [CHR 0xE5, CHR 0x8F, CHR 0xB0, CHR 0xE7, CHR 0xA9, CHR 0x8D, CHR 0xE9, CHR 0x9B, CHR 0xBB],
          I64 100, I64 520, I64 580, I64 58000, I64 6000, Num (1154 / 100)],
         [Str ''2317'',
          Str [CHR 0xE9, CHR 0xB4, CHR 0xBB, CHR 0xE6, CHR 0xB5, CHR 0xB7],
          I64 200, I64 95, I64 102, I64 20400, I64 1400, Num (737 / 100)],
         [Str ''2454'',
          Str [CHR 0xE8, CHR 0x81, CHR 0xAF, CHR 0xE7, CHR 0x99, CHR 0xBC, CHR 0xE7, CHR 0xA7, CHR 0x91],
          I64 50, I64 800, I64 750, I64 37500, I64 (- 2500), Num (- 625 / 100)],
         [Str ''3008'',
          Str [CHR 0xE5, CHR 0xA4, CHR 0xA7, CHR 0xE7, CHR 0xAB, CHR 0x8B, CHR 0xE5, CHR 0x85, CHR 0x89],
          I64 30, I64 2500, I64 2800, I64 84000, I64 9000, Num 12],
         [Str ''2412'',
          Str [CHR 0xE4, CHR 0xB8, CHR 0xAD, CHR 0xE8, CHR 0x8F, CHR 0xAF, CHR 0xE9, CHR 0x9B, CHR 0xBB],
          I64 150, I64 120, I64 125, I64 18750, I64 750, Num (417 / 100)],
         [Str ''2382'',
          Str [CHR 0xE5, CHR 0xBB, CHR 0xA3, CHR 0xE9, CHR 0x81, CHR 0x94],
          I64 80, I64 180, I64 190, I64 15200, I64 800, Num (556 / 100)]]\<rparr>"

text \<open>
  \<^verbatim>\<open>load_data\<close>. The argument is the outcome of \<^verbatim>\<open>pd.read_csv(csv_url)\<close>: the error
  raised by the download or the parser, or the parsed table. Any error is reported and
  answered with the sample table.
\<close>

definition load_data :: "py_error + dataframe \<Rightarrow> ui_event list \<times> dataframe" where
  "load_data response =
     (case response of
        Inr df \<Rightarrow> ([], strip_columns df)
      | Inl e \<Rightarrow> ([CannotRead], create_sample_data))"

text \<open>Lines 93 to 96: the numeric columns present are coerced; nothing fills the
  cells that fail.\<close>

definition numeric_columns :: "string list" where
  "numeric_columns = [col_shares, col_cost, col_price, col_value, col_pl, col_pl_pct]"

definition coerce_col ::
  "(string \<Rightarrow> parsed option) \<Rightarrow> string \<Rightarrow> dataframe \<Rightarrow> py_error + dataframe" where
  "coerce_col parse n df =
     (if n \<in> set (columns df)
      then (case get_col n df of
              Inl e \<Rightarrow> Inl e
            | Inr s \<Rightarrow> Inr (set_col n (to_numeric_series parse s) df))
      else Inr df)"

fun coerce_numeric_columns ::
  "(string \<Rightarrow> parsed option) \<Rightarrow> string list \<Rightarrow> dataframe \<Rightarrow> py_error + dataframe" where
  "coerce_numeric_columns parse [] df = Inr df"
| "coerce_numeric_columns parse (n # ns) df =
     (case coerce_col parse n df of
        Inl e \<Rightarrow> Inl e
      | Inr df' \<Rightarrow> coerce_numeric_columns parse ns df')"






section \<open>Notions used to state the properties\<close>

text \<open>A row survives the two row filters of the recurring-plan loader: it is not
  entirely empty, and its first two cells (ticker, name) are present.\<close>

definition row_kept :: "pyval list \<Rightarrow> bool" where
  "row_kept r = (list_ex notna r \<and> notna (r ! 0) \<and> notna (r ! 1))"

text \<open>A series becomes an int64 series under coercion.\<close>

definition all_ints :: "(string \<Rightarrow> parsed option) \<Rightarrow> pyval list \<Rightarrow> bool" where
  "all_ints parse s = list_all is_int (map (to_numeric parse) s)"

text \<open>What a cell becomes under coercion followed by \<^verbatim>\<open>fillna(0)\<close>, in a series
  that becomes an int64 series (\<open>ints\<close>) or a float64 series.\<close>

definition coerced :: "(string \<Rightarrow> parsed option) \<Rightarrow> bool \<Rightarrow> pyval \<Rightarrow> pyval" where
  "coerced parse ints c =
     fillna0 (if ints then to_numeric parse c else as_float (to_numeric parse c))"

text \<open>The normalized form of a five-cell row \<open>r\<close> among the rows \<open>R\<close> that are kept.\<close>

definition norm_row :: "(string \<Rightarrow> parsed option) \<Rightarrow> pyval list list \<Rightarrow> pyval list \<Rightarrow> pyval list" where
  "norm_row parse R r =
     (let m = coerced parse (all_ints parse (map (\<lambda>r. r ! 2) R)) (r ! 2);
          d = coerced parse (all_ints parse (map (\<lambda>r. r ! 3) R)) (r ! 3);
          c = coerced parse (all_ints parse (map (\<lambda>r. r ! 4) R)) (r ! 4);
          a = pv_mul m (I64 12)
      in [r ! 0, r ! 1, m, d, c, a, pv_mul (pv_truediv c (I64 100)) a])"

text \<open>A number fits in 64 bits, read as signed.\<close>

definition fits_int64 :: "int \<Rightarrow> bool" where
  "fits_int64 k = (- (2 ^ 63) \<le> k \<and> k < 2 ^ 63)"

section \<open>Sample inputs\<close>

text \<open>A stand-in for the number parser of pandas in the examples: it knows the
  texts the examples use as numbers and rejects every other text.\<close>

definition demo_parse :: "string \<Rightarrow> parsed option" where
  "demo_parse s =
     (if s = ''1000'' then Some (ParsedInt 1000)
      else if s = ''3000'' then Some (ParsedInt 3000)
      else if s = ''20400'' then Some (ParsedInt 20400)
      else None)"

text \<open>
  A parsed recurring-plan sheet with the five schema columns under headers of its own:
  a complete row (monthly amount 1000, discount 0.1), an entirely empty row, a row
  without name, and a row whose amount is written with a thousands separator and whose
  deduction day is missing. The amount column is text, as \<^verbatim>\<open>read_csv\<close> leaves a
  column in which some cell is no number; the day column has missing cells and is a
  float64 column.
\<close>

definition example_plan :: dataframe where
  "example_plan =
     \<lparr>columns = [''code '', ''name'', ''amount'', ''day'', ''discount''],
      rows = [[Str ''AAPL'', Str ''Apple'', Str ''1000'', Num 5, Num (1 / 10)],
              [NaN, NaN, NaN, NaN, NaN],
              [Str ''MSFT'', NaN, Str ''3000'', Num 6, Num (2 / 10)],
              [Str ''TSM'', Str ''TSMC'', Str ''1,000'', NaN, Num (1 / 10)]]\<rparr>"

text \<open>What the loader returns for \<open>example_plan\<close>.\<close>

definition example_loaded :: dataframe where
  "example_loaded =
     \<lparr>columns = [col_ticker, col_name, col_monthly, col_day, col_discount,
                 col_annual, col_fee],
      rows = [[Str ''AAPL'', Str ''Apple'', Num 1000, Num 5, Num (1 / 10), Num 12000, Num 12],
              [Str ''TSM'', Str ''TSMC'', Num 0, Num 0, Num (1 / 10), Num 0, Num 0]]\<rparr>"

text \<open>Two plans with discounts 0.1 and 0.2 and 10000 a month each: the mean discount
  0.15 is above the standard fee, and the annual total is 240000. The amount and day
  columns are int64 columns.\<close>

definition savings_plan :: dataframe where
  "savings_plan =
     \<lparr>columns = [''code'', ''name'', ''amount'', ''day'', ''discount''],
      rows = [[Str ''AAPL'', Str ''Apple'', I64 10000, I64 5, Num (1 / 10)],
              [Str ''TSM'', Str ''TSMC'', I64 10000, I64 6, Num (2 / 10)]]\<rparr>"

text \<open>What the loader returns for \<open>savings_plan\<close>.\<close>

definition savings_loaded :: dataframe where
  "savings_loaded =
     \<lparr>columns = [col_ticker, col_name, col_monthly, col_day, col_discount,
                 col_annual, col_fee],
      rows = [[Str ''AAPL'', Str ''Apple'', I64 10000, I64 5, Num (1 / 10), I64 120000, Num 120],
              [Str ''TSM'', Str ''TSMC'', I64 10000, I64 6, Num (2 / 10), I64 120000, Num 240]]\<rparr>"

text \<open>A sheet whose monthly amount, an integer, is so large that twelve times it does
  not fit in 64 bits, and what the loader returns for it.\<close>

definition big_plan :: dataframe where
  "big_plan =
     \<lparr>columns = [''code'', ''name'', ''amount'', ''day'', ''discount''],
      rows = [[Str ''AAPL'', Str ''Apple'', I64 1000000000000000000, I64 5, Num 1]]\<rparr>"

definition big_loaded :: dataframe where
  "big_loaded =
     \<lparr>columns = [col_ticker, col_name, col_monthly, col_day, col_discount,
                 col_annual, col_fee],
      rows = [[Str ''AAPL'', Str ''Apple'', I64 1000000000000000000, I64 5, Num 1,
               I64 (- 6446744073709551616), Num (- 64467440737095516 - 16 / 100)]]\<rparr>"

text \<open>A sheet with four columns, two of them under canonical names, and what the
  loader returns for it: no header is renamed.\<close>

definition short_plan :: dataframe where
  "short_plan =
     \<lparr>columns = [''code'', ''name'', col_monthly, col_discount],
      rows = [[Str ''AAPL'', Str ''Apple'', I64 1000, Num (1 / 10)]]\<rparr>"

definition short_loaded :: dataframe where
  "short_loaded =
     \<lparr>columns = [''code'', ''name'', col_monthly, col_discount, col_annual, col_fee],
      rows = [[Str ''AAPL'', Str ''Apple'', I64 1000, Num (1 / 10), I64 12000, Num 12]]\<rparr>"

text \<open>A sheet with the five schema columns and a sixth column of notes.\<close>

definition wide_plan :: dataframe where
  "wide_plan =
     \<lparr>columns = [''code'', ''name'', ''amount'', ''day'', ''discount'', ''note''],
      rows = [[Str ''AAPL'', Str ''Apple'', I64 1000, I64 5, Num (1 / 10), Str ''core'']]\<rparr>"

text \<open>The table the loader returns for a sheet that has the five headers and no data
  row.\<close>

definition empty_plan :: dataframe where
  "empty_plan =
     \<lparr>columns = [col_ticker, col_name, col_monthly, col_day, col_discount,
                 col_annual, col_fee],
      rows = []\<rparr>"



definition text_portfolio :: dataframe where
  "text_portfolio =
     \<lparr>columns = [col_ticker, col_name, col_value, col_pl],
      rows = [[Str ''2330'', Str ''TSMC'', Str ''58,000'', I64 6000],
              [Str ''2317'', Str ''Hon Hai'', Str ''20400'', I64 1400]]\<rparr>"

definition text_coerced :: dataframe where
  "text_coerced =
     \<lparr>columns = [col_ticker, col_name, col_value, col_pl],
      rows = [[Str ''2330'', Str ''TSMC'', NaN, I64 6000],
              [Str ''2317'', Str ''Hon Hai'', Num 20400, I64 1400]]\<rparr>"


section \<open>Facts about the table operations\<close>

subsection \<open>Column positions\<close>

lemma set_col_positions:
  "set (col_positions n cs) = {i. i < length cs \<and> cs ! i = n}"
  by (auto simp: col_positions_def)

lemma col_positions_Nil_iff: "col_positions n cs = [] \<longleftrightarrow> n \<notin> set cs"
proof -
  have "col_positions n cs = [] \<longleftrightarrow> set (col_positions n cs) = {}" by simp
  also have "\<dots> \<longleftrightarrow> n \<notin> set cs"
    unfolding set_col_positions by (auto simp: in_set_conv_nth)
  finally show ?thesis .
qed

lemma col_positions_single:
  assumes "col_positions n cs = [i]"
  shows "i < length cs" and "cs ! i = n"
proof -
  have "i \<in> set (col_positions n cs)" using assms by simp
  then show "i < length cs" and "cs ! i = n" by (simp_all add: set_col_positions)
qed

lemma col_positions_append1:
  "col_positions n (cs @ [m]) = col_positions n cs @ (if m = n then [length cs] else [])"
proof -
  have "filter (\<lambda>i. (cs @ [m]) ! i = n) [0..<length cs] = filter (\<lambda>i. cs ! i = n) [0..<length cs]"
    by (rule filter_cong) (auto simp: nth_append)
  then show ?thesis by (simp add: col_positions_def)
qed

subsection \<open>Reading a column\<close>

lemma get_col_Inr:
  assumes "get_col n df = Inr s"
  obtains i where "col_positions n (columns df) = [i]" and "s = map (\<lambda>r. r ! i) (rows df)"
  using assms by (auto simp: get_col_def split: list.splits)

lemma get_col_single:
  "col_positions n (columns df) = [i] \<Longrightarrow> get_col n df = Inr (map (\<lambda>r. r ! i) (rows df))"
  by (simp add: get_col_def)

lemma get_col_length: "get_col n df = Inr s \<Longrightarrow> length s = length (rows df)"
  by (erule get_col_Inr) simp

lemma get_col_mem: "get_col n df = Inr s \<Longrightarrow> n \<in> set (columns df)"
proof -
  assume "get_col n df = Inr s"
  then have "col_positions n (columns df) \<noteq> []" by (auto simp: get_col_def)
  then show ?thesis by (simp add: col_positions_Nil_iff)
qed

lemma get_col_absent: "n \<notin> set (columns df) \<Longrightarrow> get_col n df = Inl KeyError"
  using col_positions_Nil_iff[of n "columns df"] by (simp add: get_col_def)

lemma get_col_cong:
  assumes "columns df' = columns df" and "length (rows df') = length (rows df)"
    and "\<And>k i. k < length (rows df) \<Longrightarrow> i < length (columns df) \<Longrightarrow> columns df ! i = n
            \<Longrightarrow> rows df' ! k ! i = rows df ! k ! i"
  shows "get_col n df' = get_col n df"
proof (cases "col_positions n (columns df)")
  case Nil
  then show ?thesis using assms(1) by (simp add: get_col_def)
next
  case (Cons i rest)
  show ?thesis
  proof (cases rest)
    case Nil
    with Cons have p: "col_positions n (columns df) = [i]" by simp
    have "map (\<lambda>r. r ! i) (rows df') = map (\<lambda>r. r ! i) (rows df)"
      using assms(2,3) col_positions_single[OF p] by (intro nth_equalityI) auto
    then show ?thesis using p assms(1) by (simp add: get_col_def)
  next
    case (Cons j js)
    with \<open>col_positions n (columns df) = i # rest\<close> show ?thesis
      using assms(1) by (simp add: get_col_def)
  qed
qed

subsection \<open>Writing a column\<close>

lemma wf_frame_iff: "wf_frame df \<longleftrightarrow> (\<forall>r \<in> set (rows df). length r = length (columns df))"
  by (simp add: wf_frame_def list_all_iff)

lemma wf_frame_nth: "wf_frame df \<Longrightarrow> k < length (rows df) \<Longrightarrow> length (rows df ! k) = length (columns df)"
  by (simp add: wf_frame_iff)

lemma columns_set_col:
  "columns (set_col n vs df) = (if n \<in> set (columns df) then columns df else columns df @ [n])"
  by (simp add: set_col_def)

lemma length_rows_set_col:
  "length vs = length (rows df) \<Longrightarrow> length (rows (set_col n vs df)) = length (rows df)"
  by (simp add: set_col_def)

lemma row_set_col_old:
  assumes "n \<in> set (columns df)" "length vs = length (rows df)" "k < length (rows df)"
  shows "rows (set_col n vs df) ! k
           = map2 (\<lambda>c x. if c = n then vs ! k else x) (columns df) (rows df ! k)"
  using assms by (simp add: set_col_def)

lemma row_set_col_new:
  assumes "n \<notin> set (columns df)" "length vs = length (rows df)" "k < length (rows df)"
  shows "rows (set_col n vs df) ! k = rows df ! k @ [vs ! k]"
  using assms by (simp add: set_col_def)

lemma cell_set_col:
  assumes "wf_frame df" "length vs = length (rows df)" "k < length (rows df)"
    and "i < length (columns df)"
  shows "rows (set_col n vs df) ! k ! i = (if columns df ! i = n then vs ! k else rows df ! k ! i)"
proof (cases "n \<in> set (columns df)")
  case True
  have "length (rows df ! k) = length (columns df)" using assms by (simp add: wf_frame_nth)
  then show ?thesis using assms True by (simp add: row_set_col_old)
next
  case False
  have "length (rows df ! k) = length (columns df)" using assms by (simp add: wf_frame_nth)
  moreover have "columns df ! i \<noteq> n" using False assms(4) by (metis nth_mem)
  ultimately show ?thesis using assms False by (simp add: row_set_col_new nth_append)
qed

lemma cell_set_col_last:
  assumes "wf_frame df" "length vs = length (rows df)" "k < length (rows df)"
    and "n \<notin> set (columns df)"
  shows "rows (set_col n vs df) ! k ! length (columns df) = vs ! k"
proof -
  have "length (rows df ! k) = length (columns df)" using assms by (simp add: wf_frame_nth)
  then show ?thesis using assms by (simp add: row_set_col_new nth_append)
qed

lemma wf_set_col:
  assumes "wf_frame df" "length vs = length (rows df)"
  shows "wf_frame (set_col n vs df)"
proof -
  have "length (rows (set_col n vs df) ! k) = length (columns (set_col n vs df))"
    if "k < length (rows df)" for k
  proof -
    have "length (rows df ! k) = length (columns df)" using assms that by (simp add: wf_frame_nth)
    then show ?thesis using assms that
      by (cases "n \<in> set (columns df)") (simp_all add: row_set_col_old row_set_col_new columns_set_col)
  qed
  then show ?thesis
    using assms(2) by (simp add: wf_frame_def list_all_length length_rows_set_col)
qed

lemma get_col_set_col_other:
  assumes "wf_frame df" "length vs = length (rows df)" "m \<noteq> n"
  shows "get_col m (set_col n vs df) = get_col m df"
proof (cases "n \<in> set (columns df)")
  case True
  show ?thesis
  proof (rule get_col_cong)
    show "columns (set_col n vs df) = columns df" using True by (simp add: columns_set_col)
    show "length (rows (set_col n vs df)) = length (rows df)" using assms by (simp add: length_rows_set_col)
    show "rows (set_col n vs df) ! k ! i = rows df ! k ! i"
      if "k < length (rows df)" "i < length (columns df)" "columns df ! i = m" for k i
      using that assms by (simp add: cell_set_col)
  qed
next
  case False
  have cp: "col_positions m (columns (set_col n vs df)) = col_positions m (columns df)"
    using False assms(3) by (simp add: columns_set_col col_positions_append1)
  show ?thesis
  proof (cases "col_positions m (columns df)")
    case Nil
    then show ?thesis using cp by (simp add: get_col_def)
  next
    case (Cons i rest)
    show ?thesis
    proof (cases rest)
      case Nil
      with Cons have p: "col_positions m (columns df) = [i]" by simp
      have "map (\<lambda>r. r ! i) (rows (set_col n vs df)) = map (\<lambda>r. r ! i) (rows df)"
        using assms col_positions_single[OF p]
        by (intro nth_equalityI) (auto simp: length_rows_set_col cell_set_col)
      then show ?thesis using p cp by (simp add: get_col_def)
    next
      case (Cons j js)
      with \<open>col_positions m (columns df) = i # rest\<close> cp show ?thesis
        by (simp add: get_col_def)
    qed
  qed
qed

lemma get_col_set_col_same:
  assumes "wf_frame df" "length vs = length (rows df)"
    and "get_col n (set_col n vs df) = Inr s"
  shows "s = vs"
proof -
  from assms(3) obtain i where p: "col_positions n (columns (set_col n vs df)) = [i]"
    and s: "s = map (\<lambda>r. r ! i) (rows (set_col n vs df))"
    by (rule get_col_Inr)
  show ?thesis
  proof (cases "n \<in> set (columns df)")
    case True
    then have "col_positions n (columns df) = [i]" using p by (simp add: columns_set_col)
    from col_positions_single[OF this] show ?thesis
      unfolding s using assms(1,2)
      by (intro nth_equalityI) (auto simp: length_rows_set_col cell_set_col)
  next
    case False
    then have "i = length (columns df)"
      using p by (simp add: columns_set_col col_positions_append1 col_positions_Nil_iff)
    then show ?thesis
      unfolding s using assms(1,2) False
      by (intro nth_equalityI) (auto simp: length_rows_set_col cell_set_col_last)
  qed
qed

lemma get_col_set_col_unique:
  assumes "wf_frame df" "length vs = length (rows df)" "get_col n df = Inr s0"
  shows "get_col n (set_col n vs df) = Inr vs"
proof -
  from assms(3) obtain i where p: "col_positions n (columns df) = [i]" by (rule get_col_Inr)
  have mem: "n \<in> set (columns df)" using assms(3) by (rule get_col_mem)
  then have p': "col_positions n (columns (set_col n vs df)) = [i]"
    using p by (simp add: columns_set_col)
  have "map (\<lambda>r. r ! i) (rows (set_col n vs df)) = vs"
    using assms(1,2) col_positions_single[OF p]
    by (intro nth_equalityI) (auto simp: length_rows_set_col cell_set_col)
  then show ?thesis using p' by (simp add: get_col_def)
qed

section \<open>Facts about the recurring-plan loader\<close>

lemma columns_prepared [simp]:
  "columns (dropna_all (strip_columns df)) = map strip (columns df)"
  by (simp add: dropna_all_def strip_columns_def)

lemma rows_prepared [simp]:
  "rows (dropna_all (strip_columns df)) = filter (list_ex notna) (rows df)"
  by (simp add: dropna_all_def strip_columns_def)

lemma length_expected [simp]: "length expected_columns = 5"
  by (simp add: expected_columns_def)

lemma load_body_short:
  "length (columns df) < 2 \<Longrightarrow> load_body parse df = Inl IndexError"
  by (simp add: load_body_def filter_ticker_name_def)

lemma load_body_wide:
  "length (columns df) > 5 \<Longrightarrow> load_body parse df = Inl ValueError"
  by (auto simp: load_body_def filter_ticker_name_def standardize_columns_def set_columns_def)


lemma coerced_series:
  "map fillna0 (to_numeric_series parse s) = map (coerced parse (all_ints parse s)) s"
  by (simp add: to_numeric_series_def Let_def all_ints_def coerced_def)

lemma coerced_number: "is_number (coerced parse b c)"
  by (simp add: coerced_def fillna0_def as_float_def to_numeric_def is_number_def
           split: pyval.splits option.splits parsed.splits)

lemma coerced_failed: "to_numeric parse c = NaN \<Longrightarrow> coerced parse b c = Num 0"
  by (simp add: coerced_def fillna0_def as_float_def)

lemma names_distinct:
  "distinct [col_ticker, col_name, col_monthly, col_day, col_discount, col_annual, col_fee]"
  by (simp add: col_ticker_def col_name_def col_monthly_def col_day_def col_discount_def
                col_annual_def col_fee_def)

lemma row_kept_eq:
  "(\<lambda>x. list_ex notna x \<and> notna (x ! 0) \<and> notna (x ! Suc 0)) = row_kept"
  by (rule ext) (simp add: row_kept_def)

lemma prepare_Inr:
  "2 \<le> length (columns df) \<Longrightarrow>
     filter_ticker_name (dropna_all (strip_columns df))
       = Inr (df\<lparr>columns := map strip (columns df), rows := filter row_kept (rows df)\<rparr>)"
  by (auto simp: filter_ticker_name_def dropna_all_def strip_columns_def row_kept_eq)

lemma positions_expected:
  "col_positions col_monthly (expected_columns) = [2]"
  "col_positions col_day (expected_columns) = [3]"
  "col_positions col_discount (expected_columns) = [4]"
  using names_distinct
  by (auto simp: col_positions_def expected_columns_def upt_conv_Cons)

lemma map2_map_map: "map2 f (map g xs) (map h xs) = map (\<lambda>x. f (g x) (h x)) xs"
  by (induction xs) simp_all

lemma names_neq [simp]:
  "col_monthly \<noteq> col_ticker" "col_monthly \<noteq> col_name" "col_monthly \<noteq> col_day"
  "col_monthly \<noteq> col_discount" "col_monthly \<noteq> col_annual" "col_monthly \<noteq> col_fee"
  "col_day \<noteq> col_ticker" "col_day \<noteq> col_name" "col_day \<noteq> col_monthly"
  "col_day \<noteq> col_discount" "col_day \<noteq> col_annual" "col_day \<noteq> col_fee"
  "col_discount \<noteq> col_ticker" "col_discount \<noteq> col_name" "col_discount \<noteq> col_monthly"
  "col_discount \<noteq> col_day" "col_discount \<noteq> col_annual" "col_discount \<noteq> col_fee"
  "col_annual \<noteq> col_ticker" "col_annual \<noteq> col_name" "col_annual \<noteq> col_monthly"
  "col_annual \<noteq> col_day" "col_annual \<noteq> col_discount" "col_annual \<noteq> col_fee"
  "col_fee \<noteq> col_ticker" "col_fee \<noteq> col_name" "col_fee \<noteq> col_monthly"
  "col_fee \<noteq> col_day" "col_fee \<noteq> col_discount" "col_fee \<noteq> col_annual"
  "col_ticker \<noteq> col_name" "col_name \<noteq> col_ticker"
  "col_ticker \<noteq> col_monthly" "col_ticker \<noteq> col_day" "col_ticker \<noteq> col_discount"
  "col_ticker \<noteq> col_annual" "col_ticker \<noteq> col_fee"
  "col_name \<noteq> col_monthly" "col_name \<noteq> col_day" "col_name \<noteq> col_discount"
  "col_name \<noteq> col_annual" "col_name \<noteq> col_fee"
  using names_distinct by auto

lemma coerce_fill_rows:
  assumes "col_positions n cs = [i]"
  shows "coerce_fill parse n \<lparr>columns = cs, rows = map g R\<rparr>
           = Inr \<lparr>columns = cs,
                  rows = map (\<lambda>r. map2 (\<lambda>c x. if c = n
                                              then coerced parse
                                                     (all_ints parse (map (\<lambda>r. g r ! i) R))
                                                     (g r ! i)
                                              else x)
                                        cs (g r)) R\<rparr>"
proof -
  have "n \<in> set cs" using assms col_positions_Nil_iff[of n cs] by auto
  then show ?thesis
    using assms
    by (simp add: coerce_fill_def get_col_def set_col_def coerced_series o_def
                  map2_map_map)
qed

lemma get_col_rows:
  "col_positions n cs = [i] \<Longrightarrow>
     get_col n \<lparr>columns = cs, rows = map g R\<rparr> = Inr (map (\<lambda>r. g r ! i) R)"
  by (simp add: get_col_def o_def)

lemma set_col_rows_fresh:
  "n \<notin> set cs \<Longrightarrow>
     set_col n (map h R) \<lparr>columns = cs, rows = map g R\<rparr>
       = \<lparr>columns = cs @ [n], rows = map (\<lambda>r. g r @ [h r]) R\<rparr>"
  by (simp add: set_col_def map2_map_map)

lemma positions_extended:
  "col_positions col_discount (expected_columns @ [col_annual]) = [4]"
  "col_positions col_annual (expected_columns @ [col_annual]) = [5]"
  by (simp_all add: col_positions_append1 positions_expected)
     (simp add: col_positions_def expected_columns_def upt_conv_Cons)

lemma fresh_names:
  "col_annual \<notin> set expected_columns"
  "col_fee \<notin> set (expected_columns @ [col_annual])"
  by (simp_all add: expected_columns_def)

lemma load_body_full_schema:
  assumes wf: "wf_frame df" and len: "length (columns df) = 5"
  shows "load_body parse df =
           Inr \<lparr>columns = expected_columns @ [col_annual, col_fee],
                rows = map (norm_row parse (filter row_kept (rows df)))
                           (filter row_kept (rows df))\<rparr>"
proof -
  define R where "R = filter row_kept (rows df)"
  define b2 where "b2 = all_ints parse (map (\<lambda>r. r ! 2) R)"
  define b3 where "b3 = all_ints parse (map (\<lambda>r. r ! 3) R)"
  define b4 where "b4 = all_ints parse (map (\<lambda>r. r ! 4) R)"
  define g0 :: "pyval list \<Rightarrow> pyval list" where "g0 = (\<lambda>r. [r ! 0, r ! 1, r ! 2, r ! 3, r ! 4])"
  define g1 where "g1 = (\<lambda>r. [r ! 0, r ! 1, coerced parse b2 (r ! 2), r ! 3, r ! 4])"
  define g2 where "g2 = (\<lambda>r. [r ! 0, r ! 1, coerced parse b2 (r ! 2),
                               coerced parse b3 (r ! 3), r ! 4])"
  define g3 where "g3 = (\<lambda>r. [r ! 0, r ! 1, coerced parse b2 (r ! 2),
                               coerced parse b3 (r ! 3), coerced parse b4 (r ! 4)])"
  have R5: "\<And>r. r \<in> set R \<Longrightarrow> length r = 5"
    using wf len by (auto simp: R_def wf_frame_iff)
  have five: "\<And>r::pyval list. length r = 5 \<Longrightarrow> r = [r ! 0, r ! 1, r ! 2, r ! 3, r ! 4]"
    by (auto simp: list_eq_iff_nth_eq less_Suc_eq numeral_eq_Suc)
  have R_expl: "R = map g0 R"
    unfolding g0_def using R5 five by (simp add: map_idI)
  have c2: "(\<lambda>r. g0 r ! 2) = (\<lambda>r. r ! 2)" by (simp add: g0_def)
  have c3: "(\<lambda>r. g1 r ! 3) = (\<lambda>r. r ! 3)" by (simp add: g1_def)
  have c4: "(\<lambda>r. g2 r ! 4) = (\<lambda>r. r ! 4)" by (simp add: g2_def)
  have s1: "filter_ticker_name (dropna_all (strip_columns df))
           = Inr (df\<lparr>columns := map strip (columns df), rows := R\<rparr>)"
    using len by (simp add: prepare_Inr R_def)
  have s2: "standardize_columns (df\<lparr>columns := map strip (columns df), rows := R\<rparr>)
           = Inr \<lparr>columns = expected_columns, rows = map g0 R\<rparr>"
    using len R_expl by (simp add: standardize_columns_def set_columns_def)
  have s3: "coerce_fill parse col_monthly \<lparr>columns = expected_columns, rows = map g0 R\<rparr>
           = Inr \<lparr>columns = expected_columns, rows = map g1 R\<rparr>"
    unfolding coerce_fill_rows[OF positions_expected(1)] c2 b2_def[symmetric]
    by (simp add: expected_columns_def g0_def g1_def)
  have s4: "coerce_fill parse col_day \<lparr>columns = expected_columns, rows = map g1 R\<rparr>
           = Inr \<lparr>columns = expected_columns, rows = map g2 R\<rparr>"
    unfolding coerce_fill_rows[OF positions_expected(2)] c3 b3_def[symmetric]
    by (simp add: expected_columns_def g1_def g2_def)
  have s5: "coerce_fill parse col_discount \<lparr>columns = expected_columns, rows = map g2 R\<rparr>
           = Inr \<lparr>columns = expected_columns, rows = map g3 R\<rparr>"
    unfolding coerce_fill_rows[OF positions_expected(3)] c4 b4_def[symmetric]
    by (simp add: expected_columns_def g2_def g3_def)
  have s6: "add_derived \<lparr>columns = expected_columns, rows = map g3 R\<rparr>
           = Inr \<lparr>columns = expected_columns @ [col_annual, col_fee],
                  rows = map (norm_row parse R) R\<rparr>"
  proof -
    define h where "h = (\<lambda>r. pv_mul (g3 r ! 2) (I64 12))"
    define g4 where "g4 = (\<lambda>r. g3 r @ [h r])"
    define k where "k = (\<lambda>r. pv_mul (pv_truediv (g4 r ! 4) (I64 100)) (g4 r ! 5))"
    have a: "get_col col_monthly \<lparr>columns = expected_columns, rows = map g3 R\<rparr>
               = Inr (map (\<lambda>r. g3 r ! 2) R)"
      by (rule get_col_rows[OF positions_expected(1)])
    have b: "set_col col_annual (map h R) \<lparr>columns = expected_columns, rows = map g3 R\<rparr>
               = \<lparr>columns = expected_columns @ [col_annual], rows = map g4 R\<rparr>"
      unfolding g4_def by (rule set_col_rows_fresh[OF fresh_names(1)])
    have c: "get_col col_discount \<lparr>columns = expected_columns @ [col_annual], rows = map g4 R\<rparr>
               = Inr (map (\<lambda>r. g4 r ! 4) R)"
      by (rule get_col_rows[OF positions_extended(1)])
    have d: "get_col col_annual \<lparr>columns = expected_columns @ [col_annual], rows = map g4 R\<rparr>
               = Inr (map (\<lambda>r. g4 r ! 5) R)"
      by (rule get_col_rows[OF positions_extended(2)])
    have e: "set_col col_fee (map k R) \<lparr>columns = expected_columns @ [col_annual], rows = map g4 R\<rparr>
               = \<lparr>columns = (expected_columns @ [col_annual]) @ [col_fee],
                   rows = map (\<lambda>r. g4 r @ [k r]) R\<rparr>"
      by (rule set_col_rows_fresh[OF fresh_names(2)])
    have f: "(\<lambda>r. g4 r @ [k r]) = norm_row parse R"
      by (rule ext)
         (simp add: g4_def k_def h_def g3_def norm_row_def Let_def b2_def b3_def b4_def)
    have m: "map (\<lambda>x. pv_mul x (I64 12)) (map (\<lambda>r. g3 r ! 2) R) = map h R"
      by (simp add: h_def)
    have z: "map2 (\<lambda>x y. pv_mul (pv_truediv x (I64 100)) y)
               (map (\<lambda>r. g4 r ! 4) R) (map (\<lambda>r. g4 r ! 5) R) = map k R"
      by (simp add: map2_map_map k_def)
    show ?thesis
      unfolding add_derived_def a sum.case Let_def m b c d z e f by simp
  qed
  show ?thesis
    unfolding load_body_def s1 s2 s3 s4 s5 s6 sum.case by (simp add: R_def)
qed

lemma coerce_fill_cases:
  assumes "coerce_fill parse n df = Inr df'"
  obtains (absent) "n \<notin> set (columns df)" and "df' = df"
  | (present) s0 where "n \<in> set (columns df)" and "get_col n df = Inr s0"
      and "df' = set_col n (map (coerced parse (all_ints parse s0)) s0) df"
  using assms
  by (cases "n \<in> set (columns df)")
     (auto simp: coerce_fill_def coerced_series split: sum.splits)

lemma coerce_fill_wf:
  assumes "wf_frame df" and "coerce_fill parse n df = Inr df'"
  shows "wf_frame df'"
  using assms(2)
proof (cases rule: coerce_fill_cases)
  case absent
  then show ?thesis using assms(1) by simp
next
  case (present s0)
  then show ?thesis using assms(1) get_col_length[of n df s0] by (simp add: wf_set_col)
qed

lemma coerce_fill_columns:
  assumes "coerce_fill parse n df = Inr df'"
  shows "columns df' = columns df"
  using assms by (cases rule: coerce_fill_cases) (simp_all add: columns_set_col)

lemma coerce_fill_length:
  assumes "coerce_fill parse n df = Inr df'"
  shows "length (rows df') = length (rows df)"
  using assms
proof (cases rule: coerce_fill_cases)
  case absent
  then show ?thesis by simp
next
  case (present s0)
  then show ?thesis using get_col_length[of n df s0] by (simp add: length_rows_set_col)
qed

lemma coerce_fill_other:
  assumes "wf_frame df" and "coerce_fill parse n df = Inr df'" and "m \<noteq> n"
  shows "get_col m df' = get_col m df"
  using assms(2)
proof (cases rule: coerce_fill_cases)
  case absent
  then show ?thesis by simp
next
  case (present s0)
  then show ?thesis
    using assms(1,3) get_col_length[of n df s0] by (simp add: get_col_set_col_other)
qed

lemma coerce_fill_same:
  assumes "wf_frame df" and "coerce_fill parse n df = Inr df'" and "get_col n df' = Inr s"
  shows "\<exists>s0. get_col n df = Inr s0 \<and> s = map (coerced parse (all_ints parse s0)) s0"
  using assms(2)
proof (cases rule: coerce_fill_cases)
  case absent
  then show ?thesis using assms(3) by (simp add: get_col_absent)
next
  case (present s0)
  have len: "length (map (coerced parse (all_ints parse s0)) s0) = length (rows df)"
    using get_col_length[OF present(2)] by simp
  have "s = map (coerced parse (all_ints parse s0)) s0"
    using get_col_set_col_same[OF assms(1) len] assms(3) present(3) by simp
  then show ?thesis using present(2) by simp
qed

lemma coerce_fill_present:
  assumes "wf_frame df" and "coerce_fill parse n df = Inr df'" and "get_col n df = Inr s0"
  shows "get_col n df' = Inr (map (coerced parse (all_ints parse s0)) s0)"
proof -
  have "n \<in> set (columns df)" using assms(3) by (rule get_col_mem)
  then have eq: "df' = set_col n (map (coerced parse (all_ints parse s0)) s0) df"
    using assms(2,3) by (simp add: coerce_fill_def coerced_series)
  have len: "length (map (coerced parse (all_ints parse s0)) s0) = length (rows df)"
    using get_col_length[OF assms(3)] by simp
  show ?thesis unfolding eq by (rule get_col_set_col_unique[OF assms(1) len assms(3)])
qed

lemma cells_set_col_target:
  assumes "wf_frame df" "length vs = length (rows df)"
    and "i < length (columns (set_col n vs df))" "columns (set_col n vs df) ! i = n"
  shows "map (\<lambda>r. r ! i) (rows (set_col n vs df)) = vs"
proof (cases "n \<in> set (columns df)")
  case True
  then show ?thesis using assms
    by (intro nth_equalityI) (auto simp: length_rows_set_col cell_set_col columns_set_col)
next
  case False
  have "i = length (columns df)"
  proof (rule ccontr)
    assume "i \<noteq> length (columns df)"
    then have "i < length (columns df)" using assms(3) False by (simp add: columns_set_col)
    then have "columns df ! i = n" using assms(4) False by (simp add: columns_set_col nth_append)
    then show False using False \<open>i < length (columns df)\<close> by (metis nth_mem)
  qed
  then show ?thesis using assms False
    by (intro nth_equalityI) (auto simp: length_rows_set_col cell_set_col_last)
qed

lemma add_derived_Inr:
  assumes "wf_frame df" and "add_derived df = Inr t"
  obtains m d where "get_col col_monthly df = Inr m" and "get_col col_discount df = Inr d"
    and "get_col col_annual (set_col col_annual (map (\<lambda>x. pv_mul x (I64 12)) m) df)
           = Inr (map (\<lambda>x. pv_mul x (I64 12)) m)"
    and "t = set_col col_fee
               (map2 (\<lambda>x y. pv_mul (pv_truediv x (I64 100)) y) d (map (\<lambda>x. pv_mul x (I64 12)) m))
               (set_col col_annual (map (\<lambda>x. pv_mul x (I64 12)) m) df)"
proof -
  define A where "A = (\<lambda>m. map (\<lambda>x. pv_mul x (I64 12)) m)"
  from assms(2) obtain m where m: "get_col col_monthly df = Inr m"
    by (auto simp: add_derived_def split: sum.splits)
  have lenA: "length (A m) = length (rows df)" using get_col_length[OF m] by (simp add: A_def)
  from assms(2) m obtain d a where d: "get_col col_discount (set_col col_annual (A m) df) = Inr d"
    and a: "get_col col_annual (set_col col_annual (A m) df) = Inr a"
    and t: "t = set_col col_fee (map2 (\<lambda>x y. pv_mul (pv_truediv x (I64 100)) y) d a)
                  (set_col col_annual (A m) df)"
    by (auto simp: add_derived_def Let_def A_def split: sum.splits)
  have "a = A m" by (rule get_col_set_col_same[OF assms(1) lenA a])
  moreover have "get_col col_discount df = Inr d"
    using d get_col_set_col_other[OF assms(1) lenA, of col_discount col_annual] by simp
  ultimately show ?thesis using that m t a by (simp add: A_def)
qed

lemma map2_map_both:
  "map2 f (map g xs) (map h ys) = map2 (\<lambda>x y. f (g x) (h y)) xs ys"
  by (simp add: zip_map_map split_def)

lemma standardize_Inr:
  assumes "length (columns df) \<le> 5"
  shows "standardize_columns df
           = Inr (df\<lparr>columns := (if length (columns df) = 5 then expected_columns
                                   else columns df)\<rparr>)"
  using assms by (auto simp: standardize_columns_def set_columns_def)

lemma load_body_Inr:
  assumes wf: "wf_frame df" and ok: "load_body parse df = Inr t"
  obtains p sm sd where
    "2 \<le> length (columns df)" and "length (columns df) \<le> 5"
    and "p = \<lparr>columns = (if length (columns df) = 5 then expected_columns
                          else map strip (columns df)),
               rows = filter row_kept (rows df)\<rparr>"
    and "get_col col_monthly p = Inr sm" and "get_col col_discount p = Inr sd"
    and "get_col col_monthly t = Inr (map (coerced parse (all_ints parse sm)) sm)"
    and "get_col col_discount t = Inr (map (coerced parse (all_ints parse sd)) sd)"
    and "get_col col_annual t = Inr (map (\<lambda>c. pv_mul (coerced parse (all_ints parse sm) c) (I64 12)) sm)"
    and "col_fee \<in> set (columns t)"
    and "\<And>i. i < length (columns t) \<Longrightarrow> columns t ! i = col_fee \<Longrightarrow>
            map (\<lambda>r. r ! i) (rows t)
              = map2 (\<lambda>d m. pv_mul (pv_truediv (coerced parse (all_ints parse sd) d) (I64 100))
                              (pv_mul (coerced parse (all_ints parse sm) m) (I64 12))) sd sm"
    and "\<And>s. get_col col_day p = Inr s \<Longrightarrow>
            get_col col_day t = Inr (map (coerced parse (all_ints parse s)) s)"
    and "wf_frame t" and "length (rows t) = length (filter row_kept (rows df))"
    and "take (length (columns df)) (columns t) = columns p"
proof -
  define R where "R = filter row_kept (rows df)"
  define p where "p = \<lparr>columns = (if length (columns df) = 5 then expected_columns
                          else map strip (columns df)), rows = R\<rparr>"
  have len2: "2 \<le> length (columns df)"
    using ok load_body_short[of df parse] by (cases "length (columns df) < 2") auto
  have len5: "length (columns df) \<le> 5"
    using ok load_body_wide[of df parse] by (cases "length (columns df) > 5") auto
  have s1: "filter_ticker_name (dropna_all (strip_columns df))
              = Inr (df\<lparr>columns := map strip (columns df), rows := R\<rparr>)"
    using len2 by (simp add: prepare_Inr R_def)
  have s2: "standardize_columns (df\<lparr>columns := map strip (columns df), rows := R\<rparr>) = Inr p"
    using len5 by (simp add: standardize_Inr p_def)
  have lenp: "length (columns p) = length (columns df)" by (simp add: p_def)
  have wfp: "wf_frame p"
    using wf by (auto simp: wf_frame_iff p_def R_def)
  from ok obtain df3 df4 df5 where c3: "coerce_fill parse col_monthly p = Inr df3"
    and c4: "coerce_fill parse col_day df3 = Inr df4"
    and c5: "coerce_fill parse col_discount df4 = Inr df5"
    and ad: "add_derived df5 = Inr t"
    unfolding load_body_def s1 sum.case s2 by (auto split: sum.splits)
  have wf3: "wf_frame df3" by (rule coerce_fill_wf[OF wfp c3])
  have wf4: "wf_frame df4" by (rule coerce_fill_wf[OF wf3 c4])
  have wf5: "wf_frame df5" by (rule coerce_fill_wf[OF wf4 c5])
  have cols5: "columns df5 = columns p"
    using coerce_fill_columns[OF c3] coerce_fill_columns[OF c4] coerce_fill_columns[OF c5] by simp
  have rows5: "length (rows df5) = length R"
    using coerce_fill_length[OF c3] coerce_fill_length[OF c4] coerce_fill_length[OF c5]
    by (simp add: p_def)
  define A where "A = (\<lambda>m. map (\<lambda>x. pv_mul x (I64 12)) m)"
  from add_derived_Inr[OF wf5 ad] obtain m d where
    m5: "get_col col_monthly df5 = Inr m" and d5: "get_col col_discount df5 = Inr d"
    and a: "get_col col_annual (set_col col_annual (A m) df5) = Inr (A m)"
    and t: "t = set_col col_fee (map2 (\<lambda>x y. pv_mul (pv_truediv x (I64 100)) y) d (A m))
                  (set_col col_annual (A m) df5)"
    unfolding A_def by blast
  define dfa where "dfa = set_col col_annual (A m) df5"
  define F where "F = map2 (\<lambda>x y. pv_mul (pv_truediv x (I64 100)) y) d (A m)"
  have t': "t = set_col col_fee F dfa" using t by (simp add: dfa_def F_def)
  have lenA: "length (A m) = length (rows df5)" using get_col_length[OF m5] by (simp add: A_def)
  have wfa: "wf_frame dfa" unfolding dfa_def by (rule wf_set_col[OF wf5 lenA])
  have rowsa: "length (rows dfa) = length (rows df5)"
    unfolding dfa_def by (rule length_rows_set_col[OF lenA])
  have lenF: "length F = length (rows dfa)"
    using get_col_length[OF d5] lenA rowsa by (simp add: F_def)
  have other_t: "get_col n t = get_col n df5" if "n \<noteq> col_annual" "n \<noteq> col_fee" for n
    using that get_col_set_col_other[OF wfa lenF, of n col_fee]
      get_col_set_col_other[OF wf5 lenA, of n col_annual]
    by (simp add: t' dfa_def)
  have "get_col col_monthly df3 = Inr m"
    using m5 coerce_fill_other[OF wf4 c5, of col_monthly] coerce_fill_other[OF wf3 c4, of col_monthly]
    by simp
  from coerce_fill_same[OF wfp c3 this] obtain sm where
    sm: "get_col col_monthly p = Inr sm" and m: "m = map (coerced parse (all_ints parse sm)) sm"
    by blast
  from coerce_fill_same[OF wf4 c5 d5] obtain sd where
    sd4: "get_col col_discount df4 = Inr sd" and d: "d = map (coerced parse (all_ints parse sd)) sd"
    by blast
  have sd: "get_col col_discount p = Inr sd"
    using sd4 coerce_fill_other[OF wf3 c4, of col_discount] coerce_fill_other[OF wfp c3, of col_discount]
    by simp
  have Am: "A m = map (\<lambda>c. pv_mul (coerced parse (all_ints parse sm) c) (I64 12)) sm"
    by (simp add: A_def m o_def)
  have Fv: "F = map2 (\<lambda>d m. pv_mul (pv_truediv (coerced parse (all_ints parse sd) d) (I64 100))
                              (pv_mul (coerced parse (all_ints parse sm) m) (I64 12))) sd sm"
    unfolding F_def Am d by (simp add: map2_map_both)
  have g1: "get_col col_monthly t = Inr (map (coerced parse (all_ints parse sm)) sm)"
    using other_t[of col_monthly] m5 m by simp
  have g2: "get_col col_discount t = Inr (map (coerced parse (all_ints parse sd)) sd)"
    using other_t[of col_discount] d5 d by simp
  have g3: "get_col col_annual t = Inr (map (\<lambda>c. pv_mul (coerced parse (all_ints parse sm) c) (I64 12)) sm)"
    using get_col_set_col_other[OF wfa lenF, of col_annual col_fee] a Am
    by (simp add: t' dfa_def)
  have g4: "col_fee \<in> set (columns t)" by (simp add: t' columns_set_col)
  have g5: "map (\<lambda>r. r ! i) (rows t)
              = map2 (\<lambda>d m. pv_mul (pv_truediv (coerced parse (all_ints parse sd) d) (I64 100))
                              (pv_mul (coerced parse (all_ints parse sm) m) (I64 12))) sd sm"
    if "i < length (columns t)" "columns t ! i = col_fee" for i
    using cells_set_col_target[OF wfa lenF, of i col_fee] that Fv by (simp add: t')
  have g6: "get_col col_day t = Inr (map (coerced parse (all_ints parse s)) s)"
    if "get_col col_day p = Inr s" for s
  proof -
    have "get_col col_day df3 = Inr s"
      using that coerce_fill_other[OF wfp c3, of col_day] by simp
    then have "get_col col_day df4 = Inr (map (coerced parse (all_ints parse s)) s)"
      by (rule coerce_fill_present[OF wf3 c4])
    then show ?thesis
      using coerce_fill_other[OF wf4 c5, of col_day] other_t[of col_day] by simp
  qed
  have g7: "wf_frame t" unfolding t' by (rule wf_set_col[OF wfa lenF])
  have g8: "length (rows t) = length (filter row_kept (rows df))"
    using length_rows_set_col[OF lenF, of col_fee] rowsa rows5 by (simp add: t' R_def)
  have g9: "take (length (columns df)) (columns t) = columns p"
    using cols5 lenp by (simp add: t' dfa_def columns_set_col)
  show ?thesis
    by (rule that[OF len2 len5 p_def[unfolded R_def] sm sd g1 g2 g3 g4 g5 g6 g7 g8 g9])
qed

subsection \<open>Numbers\<close>

lemma sint_mult_fits:
  "fits_int64 (sint (a :: 64 word) * sint b) \<Longrightarrow> sint (a * b) = sint a * sint b"
  by (simp add: fits_int64_def sint_word_ariths signed_take_bit_int_eq_self)


lemma to_real_I64_eq: "to_real (I64 a) = to_real (I64 b) \<longleftrightarrow> a = b"
  by (auto simp: to_real_def dest: signed_word_eqI)

lemma pv_mul_12:
  "pv_mul (Num x) (I64 12) = Num (x * 12)"
  "pv_mul (I64 w) (I64 12) = I64 (w * 12)"
  by (simp_all add: pv_mul_def is_number_def to_real_def)

lemma pv_mul_number: "is_number a \<Longrightarrow> is_number b \<Longrightarrow> is_number (pv_mul a b)"
  by (auto simp: pv_mul_def is_number_def split: pyval.splits)

lemma pv_mul_Num: "is_number a \<Longrightarrow> pv_mul (Num x) a = Num (x * to_real a)"
  by (auto simp: pv_mul_def is_number_def to_real_def split: pyval.splits)

lemma pv_truediv_100: "is_number a \<Longrightarrow> pv_truediv a (I64 100) = Num (to_real a / 100)"
  by (simp add: pv_truediv_def is_number_def to_real_def)

lemma fee_cell:
  "is_number d \<Longrightarrow> is_number a \<Longrightarrow>
     pv_mul (pv_truediv d (I64 100)) a = Num (to_real d / 100 * to_real a)"
  by (simp add: pv_truediv_100 pv_mul_Num)








lemma coerced_numbers: "list_all is_number (map (coerced parse b) s)"
  by (simp add: list_all_iff coerced_number)

subsection \<open>The loader on the sample sheets\<close>

lemma load_investment_data_Some:
  "load_investment_data parse (Inr df) = (ev, Some t) \<longleftrightarrow> ev = [] \<and> load_body parse df = Inr t"
  by (auto simp: load_investment_data_def split: sum.splits)

lemma wf_example_plan: "wf_frame example_plan"
  by (simp add: wf_frame_def example_plan_def)

lemma load_example_plan:
  "load_investment_data demo_parse (Inr example_plan) = ([], Some example_loaded)"
  by code_simp

lemma wf_savings_plan: "wf_frame savings_plan"
  by (simp add: wf_frame_def savings_plan_def)

lemma load_savings_plan:
  "load_investment_data demo_parse (Inr savings_plan) = ([], Some savings_loaded)"
  by code_simp

lemma wf_big_plan: "wf_frame big_plan"
  by (simp add: wf_frame_def big_plan_def)

lemma load_big_plan:
  "load_investment_data demo_parse (Inr big_plan) = ([], Some big_loaded)"
  by code_simp

subsection \<open>The summary\<close>

lemma keys_distinct:
  "distinct [key_count, key_monthly_total, key_annual_total, key_mean_discount,
             key_fee_total, key_savings]"
  by (simp add: key_count_def key_monthly_total_def key_annual_total_def
                key_mean_discount_def key_fee_total_def key_savings_def)

lemma summary_nonempty:
  assumes "calculate_investment_summary (Some t) = Inr s" and "\<not> empty_frame t"
  obtains a b m f v where "col_sum col_monthly t = Inr a" and "col_sum col_annual t = Inr b"
    and "col_mean col_discount t = Inr m" and "col_sum col_fee t = Inr f"
    and "fee_savings m b = Inr v"
    and "s = [key_count \<mapsto> Num (real (length (rows t))),
              key_monthly_total \<mapsto> a,
              key_annual_total \<mapsto> b,
              key_mean_discount \<mapsto> m,
              key_fee_total \<mapsto> f,
              key_savings \<mapsto> v]"
  using assms by (auto simp: calculate_investment_summary_def split: sum.splits)

lemma summary_lookup:
  assumes "s = [key_count \<mapsto> c, key_monthly_total \<mapsto> a, key_annual_total \<mapsto> b,
                key_mean_discount \<mapsto> m, key_fee_total \<mapsto> f, key_savings \<mapsto> v]"
  shows "s key_count = Some c" and "s key_monthly_total = Some a"
    and "s key_annual_total = Some b" and "s key_mean_discount = Some m"
    and "s key_fee_total = Some f" and "s key_savings = Some v"
  using keys_distinct unfolding assms by auto



lemma loaded_columns:
  assumes "wf_frame df" and "load_body parse df = Inr t"
  obtains ms ds where "length ms = length (rows t)" and "length ds = length (rows t)"
    and "list_all is_number ms" and "list_all is_number ds"
    and "get_col col_monthly t = Inr ms" and "get_col col_discount t = Inr ds"
    and "get_col col_annual t = Inr (map (\<lambda>m. pv_mul m (I64 12)) ms)"
    and "col_fee \<in> set (columns t)"
    and "\<And>i. i < length (columns t) \<Longrightarrow> columns t ! i = col_fee \<Longrightarrow>
            map (\<lambda>r. r ! i) (rows t)
              = map2 (\<lambda>d m. Num (to_real d / 100 * to_real (pv_mul m (I64 12)))) ds ms"
proof (rule load_body_Inr[OF assms])
  fix p :: dataframe and sm sd
  assume g1: "get_col col_monthly t = Inr (map (coerced parse (all_ints parse sm)) sm)"
    and g2: "get_col col_discount t = Inr (map (coerced parse (all_ints parse sd)) sd)"
    and g3: "get_col col_annual t
               = Inr (map (\<lambda>c. pv_mul (coerced parse (all_ints parse sm) c) (I64 12)) sm)"
    and g4: "col_fee \<in> set (columns t)"
    and g5: "\<And>i. i < length (columns t) \<Longrightarrow> columns t ! i = col_fee \<Longrightarrow>
            map (\<lambda>r. r ! i) (rows t)
              = map2 (\<lambda>d m. pv_mul (pv_truediv (coerced parse (all_ints parse sd) d) (I64 100))
                              (pv_mul (coerced parse (all_ints parse sm) m) (I64 12))) sd sm"
  define ms where "ms = map (coerced parse (all_ints parse sm)) sm"
  define ds where "ds = map (coerced parse (all_ints parse sd)) sd"
  have l1: "length ms = length (rows t)" using get_col_length[OF g1] by (simp add: ms_def)
  have l2: "length ds = length (rows t)" using get_col_length[OF g2] by (simp add: ds_def)
  have n1: "list_all is_number ms" unfolding ms_def by (rule coerced_numbers)
  have n2: "list_all is_number ds" unfolding ds_def by (rule coerced_numbers)
  have h1: "get_col col_monthly t = Inr ms" using g1 by (simp add: ms_def)
  have h2: "get_col col_discount t = Inr ds" using g2 by (simp add: ds_def)
  have h3: "get_col col_annual t = Inr (map (\<lambda>m. pv_mul m (I64 12)) ms)"
    using g3 by (simp add: ms_def o_def)
  have cell: "pv_mul (pv_truediv (coerced parse b d) (I64 100)) (pv_mul (coerced parse b' m) (I64 12))
                = Num (to_real (coerced parse b d) / 100
                       * to_real (pv_mul (coerced parse b' m) (I64 12)))" for b b' d m
  proof (rule fee_cell)
    show "is_number (coerced parse b d)" by (rule coerced_number)
    have "is_number (I64 12)" by (simp add: is_number_def)
    then show "is_number (pv_mul (coerced parse b' m) (I64 12))"
      by (rule pv_mul_number[OF coerced_number])
  qed
  have h5: "map (\<lambda>r. r ! i) (rows t)
              = map2 (\<lambda>d m. Num (to_real d / 100 * to_real (pv_mul m (I64 12)))) ds ms"
    if "i < length (columns t)" "columns t ! i = col_fee" for i
    using g5[OF that] by (simp add: ms_def ds_def map2_map_both cell)
  show ?thesis by (rule that[OF l1 l2 n1 n2 h1 h2 h3 g4 h5])
qed





lemma summary_example_loaded:
  "calculate_investment_summary (Some example_loaded)
     = Inr [key_count \<mapsto> Num 2,
            key_monthly_total \<mapsto> Num 1000,
            key_annual_total \<mapsto> Num 12000,
            key_mean_discount \<mapsto> Num (1 / 10),
            key_fee_total \<mapsto> Num 12,
            key_savings \<mapsto> Num (51 / 10)]"
proof -
  have a: "col_sum col_monthly example_loaded = Inr (Num 1000)" by code_simp
  have b: "col_sum col_annual example_loaded = Inr (Num 12000)" by code_simp
  have m: "col_mean col_discount example_loaded = Inr (Num (1 / 10))" by code_simp
  have f: "col_sum col_fee example_loaded = Inr (Num 12)" by code_simp
  have v: "fee_savings (Num (1 / 10)) (Num 12000) = Inr (Num (51 / 10))" by code_simp
  have e: "\<not> empty_frame example_loaded" by (simp add: empty_frame_def example_loaded_def)
  have r: "length (rows example_loaded) = 2" by (simp add: example_loaded_def)
  show ?thesis
    by (simp add: calculate_investment_summary_def a b m f v e r)
qed

subsection \<open>Outcomes that do not depend on the number parser\<close>

lemma outcome_refl: "rel_sum (=) (\<lambda>x y. columns x = columns y) r r"
  by (cases r) simp_all

lemma outcome_bind:
  assumes "rel_sum (=) R x y"
    and "\<And>a b. R a b \<Longrightarrow> rel_sum (=) S (f a) (g b)"
  shows "rel_sum (=) S (case x of Inl e \<Rightarrow> Inl e | Inr a \<Rightarrow> f a)
                        (case y of Inl e \<Rightarrow> Inl e | Inr b \<Rightarrow> g b)"
  using assms by (cases x; cases y) simp_all

lemma get_col_outcome:
  assumes "columns a = columns b"
  shows "rel_sum (=) (\<lambda>x y. True) (get_col n a) (get_col n b)"
  by (simp add: get_col_def assms split: list.splits)

lemma standardize_outcome:
  assumes "columns a = columns b"
  shows "rel_sum (=) (\<lambda>x y. columns x = columns y)
           (standardize_columns a) (standardize_columns b)"
  by (simp add: standardize_columns_def set_columns_def assms)

lemma coerce_fill_outcome:
  assumes "columns a = columns b"
  shows "rel_sum (=) (\<lambda>x y. columns x = columns y)
           (coerce_fill parse n a) (coerce_fill parse' n b)"
  using get_col_outcome[OF assms, of n]
  by (cases "get_col n a"; cases "get_col n b")
     (simp_all add: coerce_fill_def assms columns_set_col)

lemma coerce_col_outcome:
  assumes "columns a = columns b"
  shows "rel_sum (=) (\<lambda>x y. columns x = columns y)
           (coerce_col parse n a) (coerce_col parse' n b)"
  using get_col_outcome[OF assms, of n]
  by (cases "get_col n a"; cases "get_col n b")
     (simp_all add: coerce_col_def assms columns_set_col)

lemma add_derived_outcome:
  assumes "columns a = columns b"
  shows "rel_sum (=) (\<lambda>x y. columns x = columns y) (add_derived a) (add_derived b)"
proof -
  have c1: "columns (set_col col_annual u a) = columns (set_col col_annual v b)" for u v
    by (simp add: columns_set_col assms)
  have step3: "rel_sum (=) (\<lambda>x y. columns x = columns y)
                 (case get_col col_annual (set_col col_annual u a) of
                    Inl e \<Rightarrow> Inl e
                  | Inr an \<Rightarrow> Inr (set_col col_fee (f an) (set_col col_annual u a)))
                 (case get_col col_annual (set_col col_annual v b) of
                    Inl e \<Rightarrow> Inl e
                  | Inr an \<Rightarrow> Inr (set_col col_fee (g an) (set_col col_annual v b)))"
    for u v f g
    by (rule outcome_bind[OF get_col_outcome[OF c1]]) (simp add: columns_set_col assms)
  have step2: "rel_sum (=) (\<lambda>x y. columns x = columns y)
                 (case get_col col_discount (set_col col_annual u a) of
                    Inl e \<Rightarrow> Inl e
                  | Inr d \<Rightarrow>
                      (case get_col col_annual (set_col col_annual u a) of
                         Inl e \<Rightarrow> Inl e
                       | Inr an \<Rightarrow> Inr (set_col col_fee (f d an) (set_col col_annual u a))))
                 (case get_col col_discount (set_col col_annual v b) of
                    Inl e \<Rightarrow> Inl e
                  | Inr d \<Rightarrow>
                      (case get_col col_annual (set_col col_annual v b) of
                         Inl e \<Rightarrow> Inl e
                       | Inr an \<Rightarrow> Inr (set_col col_fee (g d an) (set_col col_annual v b))))"
    for u v f g
    by (rule outcome_bind[OF get_col_outcome[OF c1]]) (rule step3)
  show ?thesis
    unfolding add_derived_def Let_def
    by (rule outcome_bind[OF get_col_outcome[OF assms]]) (rule step2)
qed

lemma load_body_outcome:
  "rel_sum (=) (\<lambda>x y. columns x = columns y) (load_body parse df) (load_body parse' df)"
  unfolding load_body_def
  apply (rule outcome_bind[OF outcome_refl])
  apply (rule outcome_bind[OF standardize_outcome], assumption)
  apply (rule outcome_bind[OF coerce_fill_outcome], assumption)
  apply (rule outcome_bind[OF coerce_fill_outcome], assumption)
  apply (rule outcome_bind[OF coerce_fill_outcome], assumption)
  apply (erule add_derived_outcome)
  done

lemma load_investment_data_outcome:
  "fst (load_investment_data parse r) = fst (load_investment_data parse' r)"
  "snd (load_investment_data parse r) = None
     \<longleftrightarrow> snd (load_investment_data parse' r) = None"
proof -
  have "fst (load_investment_data parse r) = fst (load_investment_data parse' r)
        \<and> (snd (load_investment_data parse r) = None
             \<longleftrightarrow> snd (load_investment_data parse' r) = None)"
  proof (cases r)
    case (Inl e)
    then show ?thesis by (simp add: load_investment_data_def)
  next
    case (Inr df)
    show ?thesis
      using load_body_outcome[of parse df parse']
      by (cases "load_body parse df"; cases "load_body parse' df")
         (simp_all add: load_investment_data_def Inr)
  qed
  then show "fst (load_investment_data parse r) = fst (load_investment_data parse' r)"
    and "snd (load_investment_data parse r) = None
           \<longleftrightarrow> snd (load_investment_data parse' r) = None"
    by simp_all
qed

lemma coerce_numeric_columns_outcome:
  assumes "columns a = columns b"
  shows "rel_sum (=) (\<lambda>x y. columns x = columns y)
           (coerce_numeric_columns parse ns a) (coerce_numeric_columns parse' ns b)"
  using assms
proof (induction ns arbitrary: a b)
  case Nil
  then show ?case by simp
next
  case (Cons n ns)
  show ?case
    unfolding coerce_numeric_columns.simps
    by (rule outcome_bind[OF coerce_col_outcome[OF Cons.prems]]) (rule Cons.IH)
qed

lemma coerce_numeric_columns_error:
  "coerce_numeric_columns parse ns d = Inl e
     \<longleftrightarrow> coerce_numeric_columns parse' ns d = Inl e"
  using coerce_numeric_columns_outcome[of d d parse ns parse']
  by (cases "coerce_numeric_columns parse ns d"; cases "coerce_numeric_columns parse' ns d")
     simp_all

subsection \<open>The coercion of the portfolio script\<close>

lemma length_to_numeric_series [simp]: "length (to_numeric_series parse s) = length s"
  by (simp add: to_numeric_series_def Let_def)



lemma to_numeric_series_failed:
  assumes "i < length s" and "to_numeric parse (s ! i) = NaN"
  shows "to_numeric_series parse s ! i = NaN"
proof -
  have "s ! i \<in> set s" using assms(1) by simp
  moreover have "\<not> is_int (to_numeric parse (s ! i))" using assms(2) by (simp add: is_int_def)
  ultimately have "\<not> list_all is_int (map (to_numeric parse) s)"
    by (auto simp: list_all_iff)
  then show ?thesis using assms by (simp add: to_numeric_series_def Let_def as_float_def)
qed

lemma filled_series_failed:
  assumes "i < length s" and "to_numeric parse (s ! i) = NaN"
  shows "map fillna0 (to_numeric_series parse s) ! i = Num 0"
  using assms by (simp add: coerced_series coerced_failed)

lemma coerce_col_absent: "n \<notin> set (columns df) \<Longrightarrow> coerce_col parse n df = Inr df"
  by (simp add: coerce_col_def)

lemma coerce_col_Inr:
  assumes "coerce_col parse n df = Inr df'"
  obtains (absent) "n \<notin> set (columns df)" and "df' = df"
  | (present) s0 where "n \<in> set (columns df)" and "get_col n df = Inr s0"
      and "df' = set_col n (to_numeric_series parse s0) df"
  using assms by (auto simp: coerce_col_def split: if_splits sum.splits)

lemma coerce_numeric_columns_Inr:
  assumes "wf_frame df" and "distinct ns" and "coerce_numeric_columns parse ns df = Inr t"
  shows "columns t = columns df \<and> wf_frame t \<and> length (rows t) = length (rows df)
         \<and> (\<forall>n s. get_col n df = Inr s \<longrightarrow>
               get_col n t = Inr (if n \<in> set ns then to_numeric_series parse s else s))
         \<and> (\<forall>n \<in> set ns. n \<in> set (columns df) \<longrightarrow> (\<exists>s. get_col n df = Inr s))"
  using assms
proof (induction ns arbitrary: df)
  case Nil
  then show ?case by simp
next
  case (Cons n ns)
  from Cons.prems(3) obtain df' where step: "coerce_col parse n df = Inr df'"
    and rest: "coerce_numeric_columns parse ns df' = Inr t"
    by (auto split: sum.splits)
  have dist: "distinct ns" and nn: "n \<notin> set ns" using Cons.prems(2) by simp_all
  from step show ?case
  proof (cases rule: coerce_col_Inr)
    case absent
    note ih = Cons.IH[OF Cons.prems(1) dist rest[unfolded absent(2)]]
    have "get_col m t = Inr (if m \<in> set (n # ns) then to_numeric_series parse s else s)"
      if "get_col m df = Inr s" for m s
    proof -
      have "m \<noteq> n" using get_col_mem[OF that] absent(1) by auto
      then show ?thesis using ih that by simp
    qed
    moreover have "\<exists>s. get_col m df = Inr s" if "m \<in> set (n # ns)" "m \<in> set (columns df)" for m
      using that absent(1) ih by auto
    ultimately show ?thesis using ih by blast
  next
    case (present s0)
    have len: "length (to_numeric_series parse s0) = length (rows df)"
      using get_col_length[OF present(2)] by simp
    have wf': "wf_frame df'" unfolding present(3) by (rule wf_set_col[OF Cons.prems(1) len])
    have cols': "columns df' = columns df"
      using present(1) by (simp add: present(3) columns_set_col)
    have rows': "length (rows df') = length (rows df)"
      unfolding present(3) by (rule length_rows_set_col[OF len])
    note ih = Cons.IH[OF wf' dist rest]
    have other: "get_col m df' = get_col m df" if "m \<noteq> n" for m
      unfolding present(3) by (rule get_col_set_col_other[OF Cons.prems(1) len that])
    have same: "get_col n df' = Inr (to_numeric_series parse s0)"
      unfolding present(3) by (rule get_col_set_col_unique[OF Cons.prems(1) len present(2)])
    have a: "get_col m t = Inr (if m \<in> set (n # ns) then to_numeric_series parse s else s)"
      if "get_col m df = Inr s" for m s
    proof (cases "m = n")
      case True
      then have "s = s0" using that present(2) by simp
      then show ?thesis using ih same nn True by simp
    next
      case False
      then show ?thesis using ih other[OF False] that by simp
    qed
    have b: "\<exists>s. get_col m df = Inr s" if "m \<in> set (n # ns)" "m \<in> set (columns df)" for m
    proof (cases "m = n")
      case True
      then show ?thesis using present(2) by blast
    next
      case False
      then have "m \<in> set ns" using that(1) by simp
      then have "\<exists>s. get_col m df' = Inr s" using ih that(2) cols' by simp
      then show ?thesis using other[OF False] by simp
    qed
    have c: "columns t = columns df" using ih cols' by simp
    have d: "wf_frame t" using ih by simp
    have e: "length (rows t) = length (rows df)" using ih rows' by simp
    show ?thesis using a b c d e by blast
  qed
qed

lemma numeric_columns_distinct: "distinct numeric_columns"
  by (simp add: numeric_columns_def col_shares_def col_cost_def col_price_def col_value_def
                col_pl_def col_pl_pct_def)

subsection \<open>The totals of the portfolio script\<close>







subsection \<open>Sheets with other column counts\<close>

lemma wf_short_plan: "wf_frame short_plan"
  by (simp add: wf_frame_def short_plan_def)

lemma load_short_plan:
  "load_investment_data demo_parse (Inr short_plan) = ([], Some short_loaded)"
  by code_simp

lemma wf_wide_plan: "wf_frame wide_plan"
  by (simp add: wf_frame_def wide_plan_def)

lemma load_wide_plan:
  "load_investment_data demo_parse (Inr wide_plan) = ([LoadFailed], None)"
  by code_simp

section \<open>Claims\<close>

subsection \<open>Claim C1\<close>

text \<open>
  C1, evaluated where it fails. The claim has the first N = min(column count, 5) columns
  renamed to the canonical names, columns beyond the schema left as they are, and no
  failure downstream when columns are missing. The sheet \<open>short_plan\<close> has
  four columns: the loader returns its table with the four headers as they were, which
  differ from the first four canonical names. A four-column sheet under headers of its own
  is not renamed either, and the load returns None for it, the monthly-amount column being
  looked up by its canonical name. The sheet \<open>wide_plan\<close> has the five schema
  columns and a sixth: the load returns None for it instead of a table with the sixth
  column left as it is.
\<close>

theorem rename_misses_other_column_counts:
  "wf_frame short_plan \<and> length (columns short_plan) = 4
   \<and> load_investment_data demo_parse (Inr short_plan) = ([], Some short_loaded)
   \<and> take (min 4 (length expected_columns)) (columns short_loaded)
       = [''code'', ''name'', col_monthly, col_discount]
   \<and> take (min 4 (length expected_columns)) expected_columns
       = [col_ticker, col_name, col_monthly, col_day]
   \<and> take (min 4 (length expected_columns)) (columns short_loaded)
       \<noteq> take (min 4 (length expected_columns)) expected_columns
   \<and> load_investment_data demo_parse
         (Inr \<lparr>columns = [''code'', ''name'', ''amount'', ''day''],
               rows = [[Str ''AAPL'', Str ''Apple'', I64 1000, I64 5]]\<rparr>)
       = ([LoadFailed], None)
   \<and> wf_frame wide_plan \<and> length (columns wide_plan) = 6
   \<and> load_investment_data demo_parse (Inr wide_plan) = ([LoadFailed], None)"
proof -
  have a: "length (columns short_plan) = 4" by (simp add: short_plan_def)
  have b: "take (min 4 (length expected_columns)) (columns short_loaded)
       = [''code'', ''name'', col_monthly, col_discount]"
    by (simp add: short_loaded_def)
  have c: "take (min 4 (length expected_columns)) expected_columns
       = [col_ticker, col_name, col_monthly, col_day]"
    by (simp add: expected_columns_def)
  have "[''code'', ''name'', col_monthly, col_discount]
             \<noteq> [col_ticker, col_name, col_monthly, col_day]"
    by simp
  then have d: "take (min 4 (length expected_columns)) (columns short_loaded)
       \<noteq> take (min 4 (length expected_columns)) expected_columns"
    unfolding b c .
  have e: "load_investment_data demo_parse
         (Inr \<lparr>columns = [''code'', ''name'', ''amount'', ''day''],
               rows = [[Str ''AAPL'', Str ''Apple'', I64 1000, I64 5]]\<rparr>)
       = ([LoadFailed], None)"
    by code_simp
  have f: "length (columns wide_plan) = 6" by (simp add: wide_plan_def)
  show ?thesis
    by (intro conjI wf_short_plan a load_short_plan b c d e wf_wide_plan f load_wide_plan)
qed

subsection \<open>Claim C2\<close>

text \<open>
  C2, as stated, fails. When the download or the parse of the portfolio sheet raises,
  \<open>load_data\<close> reports the error and returns the six-row sample table in place
  of the real one.
\<close>

theorem load_data_returns_sample_counterexample:
  "load_data (Inl RequestException) = ([CannotRead], create_sample_data)
   \<and> length (rows create_sample_data) = 6"
  by (simp add: load_data_def create_sample_data_def)

text \<open>
  C2, amended. For every failing fetch or parse, and for every exception raised while the
  parsed table is normalized, the recurring-plan loader shows the message of the matching
  handler and returns None, never a table; the portfolio loader shows its message and
  returns the fixed sample table.
\<close>

theorem failures_of_both_loaders:
  "load_investment_data parse (Inl e) = ([handler_event e], None)
   \<and> (load_body parse df = Inl e \<longrightarrow>
         load_investment_data parse (Inr df) = ([handler_event e], None))
   \<and> load_data (Inl e) = ([CannotRead], create_sample_data)"
  by (simp add: load_investment_data_def load_data_def)

theorem failures_of_both_loaders_witness:
  "load_body demo_parse \<lparr>columns = [''code''], rows = [[Str ''AAPL'']]\<rparr> = Inl IndexError
   \<and> load_investment_data demo_parse (Inl IndexError) = ([LoadFailed], None)
   \<and> load_investment_data demo_parse (Inr \<lparr>columns = [''code''], rows = [[Str ''AAPL'']]\<rparr>)
       = ([LoadFailed], None)
   \<and> load_data (Inl IndexError) = ([CannotRead], create_sample_data)"
proof -
  have a: "load_body demo_parse \<lparr>columns = [''code''], rows = [[Str ''AAPL'']]\<rparr> = Inl IndexError"
    by (simp add: load_body_short)
  show ?thesis
    using failures_of_both_loaders
            [of demo_parse IndexError "\<lparr>columns = [''code''], rows = [[Str ''AAPL'']]\<rparr>"] a
    by (simp add: handler_event_def)
qed

subsection \<open>Claim C3\<close>

text \<open>
  C3, as stated, fails. In the portfolio variant the market value written
  \<open>58,000\<close> fails coercion and the cell becomes missing (NaN) in the coerced
  table, not zero: nothing fills the missing cells there.
\<close>

theorem portfolio_failed_cell_counterexample:
  "coerce_numeric_columns demo_parse numeric_columns text_portfolio = Inr text_coerced
   \<and> rows text_portfolio ! 0 ! 2 = Str ''58,000''
   \<and> to_numeric demo_parse (Str ''58,000'') = NaN
   \<and> rows text_coerced ! 0 ! 2 = NaN
   \<and> rows text_coerced ! 0 ! 2 \<noteq> Num 0"
proof -
  have "coerce_numeric_columns demo_parse numeric_columns text_portfolio = Inr text_coerced"
    by code_simp
  then show ?thesis
    by (simp add: text_portfolio_def text_coerced_def to_numeric_def demo_parse_def)
qed

text \<open>
  C3, amended. In the recurring-plan variant every present numeric column (monthly amount,
  deduction day, broker discount) is replaced by its coercion filled with zero, so a cell
  that fails coercion becomes exactly zero. In the portfolio variant every present numeric
  column is replaced by its coercion and nothing fills it, so a cell that fails coercion
  becomes missing (NaN). In both variants a cell that fails coercion never causes an
  error: for every input, the messages shown by the recurring-plan loader and whether it
  returns None, and the error raised by the coercion of the portfolio script, are the same
  whatever the number parser accepts or rejects.
\<close>

theorem coercion_failures:
  "(wf_frame df \<and> load_investment_data parse (Inr df) = (ev, Some t) \<longrightarrow>
      (\<forall>n \<in> {col_monthly, col_day, col_discount}. \<forall>s.
          get_col n \<lparr>columns = (if length (columns df) = 5 then expected_columns
                                 else map strip (columns df)),
                     rows = filter row_kept (rows df)\<rparr> = Inr s \<longrightarrow>
          get_col n t = Inr (map fillna0 (to_numeric_series parse s))))
   \<and> (wf_frame d \<and> coerce_numeric_columns parse numeric_columns d = Inr t' \<longrightarrow>
        columns t' = columns d
        \<and> (\<forall>n \<in> set numeric_columns. \<forall>s.
              get_col n d = Inr s \<longrightarrow> get_col n t' = Inr (to_numeric_series parse s)))
   \<and> (i < length s \<and> to_numeric parse (s ! i) = NaN \<longrightarrow>
        map fillna0 (to_numeric_series parse s) ! i = Num 0
        \<and> to_numeric_series parse s ! i = NaN)
   \<and> fst (load_investment_data parse r) = fst (load_investment_data parse' r)
   \<and> (snd (load_investment_data parse r) = None
        \<longleftrightarrow> snd (load_investment_data parse' r) = None)
   \<and> (coerce_numeric_columns parse numeric_columns d = Inl e
        \<longleftrightarrow> coerce_numeric_columns parse' numeric_columns d = Inl e)"
proof (intro conjI impI)
  assume h: "wf_frame df \<and> load_investment_data parse (Inr df) = (ev, Some t)"
  then have wf: "wf_frame df" and ok: "load_body parse df = Inr t"
    by (simp_all add: load_investment_data_Some)
  show "\<forall>n \<in> {col_monthly, col_day, col_discount}. \<forall>s.
          get_col n \<lparr>columns = (if length (columns df) = 5 then expected_columns
                                 else map strip (columns df)),
                     rows = filter row_kept (rows df)\<rparr> = Inr s \<longrightarrow>
          get_col n t = Inr (map fillna0 (to_numeric_series parse s))"
  proof (rule load_body_Inr[OF wf ok])
    fix p :: dataframe and sm sd
    assume p: "p = \<lparr>columns = (if length (columns df) = 5 then expected_columns
                          else map strip (columns df)),
               rows = filter row_kept (rows df)\<rparr>"
      and sm: "get_col col_monthly p = Inr sm" and sd: "get_col col_discount p = Inr sd"
      and g1: "get_col col_monthly t = Inr (map (coerced parse (all_ints parse sm)) sm)"
      and g2: "get_col col_discount t = Inr (map (coerced parse (all_ints parse sd)) sd)"
      and g6: "\<And>s. get_col col_day p = Inr s \<Longrightarrow>
            get_col col_day t = Inr (map (coerced parse (all_ints parse s)) s)"
    show ?thesis
      using sm sd g1 g2 g6 unfolding p by (auto simp: coerced_series)
  qed
next
  assume h: "wf_frame d \<and> coerce_numeric_columns parse numeric_columns d = Inr t'"
  note r = coerce_numeric_columns_Inr[OF conjunct1[OF h] numeric_columns_distinct conjunct2[OF h]]
  show "columns t' = columns d" using r by simp
  show "\<forall>n \<in> set numeric_columns. \<forall>s.
              get_col n d = Inr s \<longrightarrow> get_col n t' = Inr (to_numeric_series parse s)"
    using r by simp
next
  assume "i < length s \<and> to_numeric parse (s ! i) = NaN"
  then show "map fillna0 (to_numeric_series parse s) ! i = Num 0"
    and "to_numeric_series parse s ! i = NaN"
    by (simp_all only: filled_series_failed to_numeric_series_failed)
next
  show "fst (load_investment_data parse r) = fst (load_investment_data parse' r)"
    by (rule load_investment_data_outcome(1))
  show "snd (load_investment_data parse r) = None
          \<longleftrightarrow> snd (load_investment_data parse' r) = None"
    by (rule load_investment_data_outcome(2))
  show "coerce_numeric_columns parse numeric_columns d = Inl e
          \<longleftrightarrow> coerce_numeric_columns parse' numeric_columns d = Inl e"
    by (rule coerce_numeric_columns_error)
qed

theorem coercion_failures_witness:
  "wf_frame example_plan
   \<and> load_investment_data demo_parse (Inr example_plan) = ([], Some example_loaded)
   \<and> get_col col_monthly
         \<lparr>columns = (if length (columns example_plan) = 5 then expected_columns
                      else map strip (columns example_plan)),
          rows = filter row_kept (rows example_plan)\<rparr> = Inr [Str ''1000'', Str ''1,000'']
   \<and> to_numeric demo_parse ([Str ''1000'', Str ''1,000''] ! 1) = NaN
   \<and> map fillna0 (to_numeric_series demo_parse [Str ''1000'', Str ''1,000'']) ! 1 = Num 0
   \<and> get_col col_monthly example_loaded
         = Inr (map fillna0 (to_numeric_series demo_parse [Str ''1000'', Str ''1,000'']))
   \<and> get_col col_monthly example_loaded = Inr [Num 1000, Num 0]
   \<and> wf_frame text_portfolio
   \<and> coerce_numeric_columns demo_parse numeric_columns text_portfolio = Inr text_coerced
   \<and> get_col col_value text_portfolio = Inr [Str ''58,000'', Str ''20400'']
   \<and> to_numeric demo_parse ([Str ''58,000'', Str ''20400''] ! 0) = NaN
   \<and> to_numeric_series demo_parse [Str ''58,000'', Str ''20400''] ! 0 = NaN
   \<and> get_col col_value text_coerced
         = Inr (to_numeric_series demo_parse [Str ''58,000'', Str ''20400''])
   \<and> get_col col_value text_coerced = Inr [NaN, Num 20400]
   \<and> fst (load_investment_data demo_parse (Inr example_plan))
         = fst (load_investment_data (\<lambda>s. None) (Inr example_plan))
   \<and> snd (load_investment_data (\<lambda>s. None) (Inr example_plan)) \<noteq> None"
proof -
  note inst1 = coercion_failures
    [where df = example_plan and parse = demo_parse and ev = "[]" and t = example_loaded
       and d = text_portfolio and t' = text_coerced and i = 1
       and s = "[Str ''1000'', Str ''1,000'']" and r = "Inr example_plan"
       and parse' = "\<lambda>s. None" and e = KeyError]
  note inst2 = coercion_failures
    [where df = example_plan and parse = demo_parse and ev = "[]" and t = example_loaded
       and d = text_portfolio and t' = text_coerced and i = 0
       and s = "[Str ''58,000'', Str ''20400'']" and r = "Inr example_plan"
       and parse' = "\<lambda>s. None" and e = KeyError]
  have gp: "get_col col_monthly
         \<lparr>columns = (if length (columns example_plan) = 5 then expected_columns
                      else map strip (columns example_plan)),
          rows = filter row_kept (rows example_plan)\<rparr> = Inr [Str ''1000'', Str ''1,000'']"
    by code_simp
  have tn: "to_numeric demo_parse ([Str ''1000'', Str ''1,000''] ! 1) = NaN"
    by (simp add: to_numeric_def demo_parse_def)
  have i1: "(1::nat) < length [Str ''1000'', Str ''1,000'']" by simp
  have z: "map fillna0 (to_numeric_series demo_parse [Str ''1000'', Str ''1,000'']) ! 1 = Num 0"
    using inst1 i1 tn by blast
  have mem1: "col_monthly \<in> {col_monthly, col_day, col_discount}" by simp
  have all1: "\<forall>n \<in> {col_monthly, col_day, col_discount}. \<forall>s.
          get_col n \<lparr>columns = (if length (columns example_plan) = 5 then expected_columns
                                 else map strip (columns example_plan)),
                     rows = filter row_kept (rows example_plan)\<rparr> = Inr s \<longrightarrow>
          get_col n example_loaded = Inr (map fillna0 (to_numeric_series demo_parse s))"
    using inst1 wf_example_plan load_example_plan by blast
  have c1: "get_col col_monthly example_loaded
         = Inr (map fillna0 (to_numeric_series demo_parse [Str ''1000'', Str ''1,000'']))"
    using all1 gp mem1 by blast
  have c2: "get_col col_monthly example_loaded = Inr [Num 1000, Num 0]" by code_simp
  have wf2: "wf_frame text_portfolio" by (simp add: wf_frame_def text_portfolio_def)
  have co: "coerce_numeric_columns demo_parse numeric_columns text_portfolio = Inr text_coerced"
    by code_simp
  have gv: "get_col col_value text_portfolio = Inr [Str ''58,000'', Str ''20400'']" by code_simp
  have mem: "col_value \<in> set numeric_columns" by (simp add: numeric_columns_def)
  have tn2: "to_numeric demo_parse ([Str ''58,000'', Str ''20400''] ! 0) = NaN"
    by (simp add: to_numeric_def demo_parse_def)
  have i2: "(0::nat) < length [Str ''58,000'', Str ''20400'']" by simp
  have z2: "to_numeric_series demo_parse [Str ''58,000'', Str ''20400''] ! 0 = NaN"
    using inst2 i2 tn2 by blast
  have all2: "\<forall>n \<in> set numeric_columns. \<forall>s.
                 get_col n text_portfolio = Inr s \<longrightarrow>
                 get_col n text_coerced = Inr (to_numeric_series demo_parse s)"
    using inst2 wf2 co by blast
  have c3: "get_col col_value text_coerced
         = Inr (to_numeric_series demo_parse [Str ''58,000'', Str ''20400''])"
    using all2 mem gv by blast
  have c4: "get_col col_value text_coerced = Inr [NaN, Num 20400]" by code_simp
  have e1: "fst (load_investment_data demo_parse (Inr example_plan))
         = fst (load_investment_data (\<lambda>s. None) (Inr example_plan))"
    using inst1 by blast
  have "snd (load_investment_data demo_parse (Inr example_plan)) = None
          \<longleftrightarrow> snd (load_investment_data (\<lambda>s. None) (Inr example_plan)) = None"
    using inst1 by blast
  then have e2: "snd (load_investment_data (\<lambda>s. None) (Inr example_plan)) \<noteq> None"
    by (simp add: load_example_plan)
  show ?thesis
    by (intro conjI wf_example_plan load_example_plan gp tn z c1 c2 wf2 co gv tn2 z2 c3 c4 e1 e2)
qed

subsection \<open>Claim C4\<close>




subsection \<open>Claim C5\<close>



subsection \<open>Claim C6\<close>

text \<open>
  C6, as stated, fails. The sheet \<open>big_plan\<close> has one row with the monthly
  amount 1000000000000000000 in an int64 column. The loader returns for it the annual
  amount -6446744073709551616, which is not twelve times the monthly amount: the product
  is computed in int64 and wraps.
\<close>

theorem annual_amount_wraps_counterexample:
  "wf_frame big_plan
   \<and> load_investment_data demo_parse (Inr big_plan) = ([], Some big_loaded)
   \<and> get_col col_monthly big_loaded = Inr [I64 1000000000000000000]
   \<and> get_col col_annual big_loaded = Inr [I64 (- 6446744073709551616)]
   \<and> to_real (I64 1000000000000000000) * 12 = 12000000000000000000
   \<and> to_real (I64 (- 6446744073709551616)) = - 6446744073709551616
   \<and> to_real (I64 (- 6446744073709551616)) \<noteq> to_real (I64 1000000000000000000) * 12"
proof -
  have a: "get_col col_monthly big_loaded = Inr [I64 1000000000000000000]" by code_simp
  have b: "get_col col_annual big_loaded = Inr [I64 (- 6446744073709551616)]" by code_simp
  have c: "to_real (I64 1000000000000000000) * 12 = 12000000000000000000" by code_simp
  have d: "to_real (I64 (- 6446744073709551616)) = - 6446744073709551616" by code_simp
  have e: "to_real (I64 (- 6446744073709551616)) \<noteq> to_real (I64 1000000000000000000) * 12"
    unfolding c d by simp
  show ?thesis by (intro conjI wf_big_plan load_big_plan a b c d e)
qed

text \<open>
  C6, amended. In the table the recurring-plan loader returns, the monthly-amount and
  discount columns hold numbers only. Row by row, the annual amount of a float monthly
  amount is twelve times it, and the annual amount of an int64 monthly amount is the int64
  product by 12, which is twelve times it whenever that fits in 64 bits; every column
  labelled as the fee holds broker discount / 100 * annual amount, a float. The witness
  has the sheet whose first row has monthly amount 1000 and discount 0.1, giving 12000 and
  12, and a sheet of int64 amounts 10000, giving 120000.
\<close>

theorem derived_fields_of_every_row:
  assumes "wf_frame df" and "load_investment_data parse (Inr df) = (ev, Some t)"
  shows "\<exists>ms ds an.
           length ms = length (rows t) \<and> length ds = length (rows t)
           \<and> length an = length (rows t)
           \<and> list_all is_number ms \<and> list_all is_number ds
           \<and> get_col col_monthly t = Inr ms
           \<and> get_col col_discount t = Inr ds
           \<and> get_col col_annual t = Inr an
           \<and> (\<forall>k < length (rows t).
                 (\<forall>x. ms ! k = Num x \<longrightarrow> an ! k = Num (x * 12))
                 \<and> (\<forall>w. ms ! k = I64 w \<longrightarrow>
                        an ! k = I64 (w * 12)
                        \<and> (fits_int64 (sint w * 12) \<longrightarrow> sint (w * 12) = sint w * 12)))
           \<and> col_fee \<in> set (columns t)
           \<and> (\<forall>i < length (columns t). columns t ! i = col_fee \<longrightarrow>
                 map (\<lambda>r. r ! i) (rows t)
                   = map2 (\<lambda>d a. Num (to_real d / 100 * to_real a)) ds an)"
proof -
  have ok: "load_body parse df = Inr t" using assms(2) by (simp add: load_investment_data_Some)
  show ?thesis
  proof (rule loaded_columns[OF assms(1) ok])
    fix ms ds
    assume l1: "length ms = length (rows t)" and l2: "length ds = length (rows t)"
      and n1: "list_all is_number ms" and n2: "list_all is_number ds"
      and h1: "get_col col_monthly t = Inr ms" and h2: "get_col col_discount t = Inr ds"
      and h3: "get_col col_annual t = Inr (map (\<lambda>m. pv_mul m (I64 12)) ms)"
      and g4: "col_fee \<in> set (columns t)"
      and h5: "\<And>i. i < length (columns t) \<Longrightarrow> columns t ! i = col_fee \<Longrightarrow>
            map (\<lambda>r. r ! i) (rows t)
              = map2 (\<lambda>d m. Num (to_real d / 100 * to_real (pv_mul m (I64 12)))) ds ms"
    define an where "an = map (\<lambda>m. pv_mul m (I64 12)) ms"
    have l3: "length an = length (rows t)" using l1 by (simp add: an_def)
    have h3': "get_col col_annual t = Inr an" using h3 by (simp add: an_def)
    have cells: "\<forall>k < length (rows t).
                 (\<forall>x. ms ! k = Num x \<longrightarrow> an ! k = Num (x * 12))
                 \<and> (\<forall>w. ms ! k = I64 w \<longrightarrow>
                        an ! k = I64 (w * 12)
                        \<and> (fits_int64 (sint w * 12) \<longrightarrow> sint (w * 12) = sint w * 12))"
    proof (intro allI impI conjI)
      fix k x assume "k < length (rows t)" "ms ! k = Num x"
      then show "an ! k = Num (x * 12)" using l1 by (simp add: an_def pv_mul_12)
    next
      fix k w assume "k < length (rows t)" "ms ! k = I64 w"
      then show "an ! k = I64 (w * 12)" using l1 by (simp add: an_def pv_mul_12)
    next
      fix k and w :: "64 word" assume "fits_int64 (sint w * 12)"
      then show "sint (w * 12) = sint w * 12"
        using sint_mult_fits[of w 12] by simp
    qed
    have fee: "\<forall>i < length (columns t). columns t ! i = col_fee \<longrightarrow>
                 map (\<lambda>r. r ! i) (rows t)
                   = map2 (\<lambda>d a. Num (to_real d / 100 * to_real a)) ds an"
      using h5 by (simp add: an_def map2_map_both[of _ "\<lambda>d. d" ds, simplified])
    show ?thesis
      by (intro exI[of _ ms] exI[of _ ds] exI[of _ an] conjI l1 l2 l3 n1 n2 h1 h2 h3' cells g4 fee)
  qed
qed

theorem derived_fields_of_every_row_witness:
  "wf_frame example_plan
   \<and> load_investment_data demo_parse (Inr example_plan) = ([], Some example_loaded)
   \<and> get_col col_monthly example_loaded = Inr [Num 1000, Num 0]
   \<and> get_col col_discount example_loaded = Inr [Num (1 / 10), Num (1 / 10)]
   \<and> get_col col_annual example_loaded = Inr [Num (1000 * 12), Num (0 * 12)]
   \<and> map (\<lambda>r. r ! 6) (rows example_loaded)
         = [Num (to_real (Num (1 / 10)) / 100 * to_real (Num (1000 * 12))),
            Num (to_real (Num (1 / 10)) / 100 * to_real (Num (0 * 12)))]
   \<and> wf_frame savings_plan
   \<and> load_investment_data demo_parse (Inr savings_plan) = ([], Some savings_loaded)
   \<and> get_col col_monthly savings_loaded = Inr [I64 10000, I64 10000]
   \<and> get_col col_annual savings_loaded = Inr [I64 (10000 * 12), I64 (10000 * 12)]
   \<and> fits_int64 (sint (10000 :: 64 word) * 12)
   \<and> sint (10000 * 12 :: 64 word) = sint (10000 :: 64 word) * 12"
proof -
  from derived_fields_of_every_row[OF wf_example_plan load_example_plan]
  obtain ms ds an where l: "length an = length (rows example_loaded)"
    and m: "get_col col_monthly example_loaded = Inr ms"
    and d: "get_col col_discount example_loaded = Inr ds"
    and a: "get_col col_annual example_loaded = Inr an"
    and c: "\<forall>k < length (rows example_loaded).
                 (\<forall>x. ms ! k = Num x \<longrightarrow> an ! k = Num (x * 12))
                 \<and> (\<forall>w. ms ! k = I64 w \<longrightarrow>
                        an ! k = I64 (w * 12)
                        \<and> (fits_int64 (sint w * 12) \<longrightarrow> sint (w * 12) = sint w * 12))"
    and f: "\<forall>i < length (columns example_loaded). columns example_loaded ! i = col_fee \<longrightarrow>
                 map (\<lambda>r. r ! i) (rows example_loaded)
                   = map2 (\<lambda>d a. Num (to_real d / 100 * to_real a)) ds an"
    by blast
  have m0: "get_col col_monthly example_loaded = Inr [Num 1000, Num 0]" by code_simp
  have d0: "get_col col_discount example_loaded = Inr [Num (1 / 10), Num (1 / 10)]" by code_simp
  have ms: "ms = [Num 1000, Num 0]" using m m0 by simp
  have ds: "ds = [Num (1 / 10), Num (1 / 10)]" using d d0 by simp
  have len: "length (rows example_loaded) = 2" by (simp add: example_loaded_def)
  have "an ! 0 = Num (1000 * 12)" using c len unfolding ms by simp
  moreover have "an ! 1 = Num (0 * 12)" using c len unfolding ms by simp
  moreover have "length an = 2" using l len by simp
  ultimately have an: "an = [Num (1000 * 12), Num (0 * 12)]"
    by (auto simp: list_eq_iff_nth_eq less_Suc_eq numeral_2_eq_2)
  have a0: "get_col col_annual example_loaded = Inr [Num (1000 * 12), Num (0 * 12)]"
    using a unfolding an .
  have "6 < length (columns example_loaded)" "columns example_loaded ! 6 = col_fee"
    by (simp_all add: example_loaded_def)
  with f have "map (\<lambda>r. r ! 6) (rows example_loaded)
                   = map2 (\<lambda>d a. Num (to_real d / 100 * to_real a)) ds an" by blast
  then have f0: "map (\<lambda>r. r ! 6) (rows example_loaded)
         = [Num (to_real (Num (1 / 10)) / 100 * to_real (Num (1000 * 12))),
            Num (to_real (Num (1 / 10)) / 100 * to_real (Num (0 * 12)))]"
    unfolding ds an by simp
  from derived_fields_of_every_row[OF wf_savings_plan load_savings_plan]
  obtain ms' ds' an' where l': "length an' = length (rows savings_loaded)"
    and m': "get_col col_monthly savings_loaded = Inr ms'"
    and a': "get_col col_annual savings_loaded = Inr an'"
    and c': "\<forall>k < length (rows savings_loaded).
                 (\<forall>x. ms' ! k = Num x \<longrightarrow> an' ! k = Num (x * 12))
                 \<and> (\<forall>w. ms' ! k = I64 w \<longrightarrow>
                        an' ! k = I64 (w * 12)
                        \<and> (fits_int64 (sint w * 12) \<longrightarrow> sint (w * 12) = sint w * 12))"
    by blast
  have m1: "get_col col_monthly savings_loaded = Inr [I64 10000, I64 10000]" by code_simp
  have ms': "ms' = [I64 10000, I64 10000]" using m' m1 by simp
  have len': "length (rows savings_loaded) = 2" by (simp add: savings_loaded_def)
  have fit: "fits_int64 (sint (10000 :: 64 word) * 12)" by code_simp
  have k0: "an' ! 0 = I64 (10000 * 12)
            \<and> (fits_int64 (sint (10000 :: 64 word) * 12)
                 \<longrightarrow> sint (10000 * 12 :: 64 word) = sint (10000 :: 64 word) * 12)"
    using c' len' unfolding ms' by simp
  have k1: "an' ! 1 = I64 (10000 * 12)" using c' len' unfolding ms' by simp
  have "length an' = 2" using l' len' by simp
  with k0 k1 have an': "an' = [I64 (10000 * 12), I64 (10000 * 12)]"
    by (auto simp: list_eq_iff_nth_eq less_Suc_eq numeral_2_eq_2)
  have a1: "get_col col_annual savings_loaded = Inr [I64 (10000 * 12), I64 (10000 * 12)]"
    using a' unfolding an' .
  have ex: "sint (10000 * 12 :: 64 word) = sint (10000 :: 64 word) * 12"
    using k0 fit by blast
  show ?thesis
    by (intro conjI wf_example_plan load_example_plan m0 d0 a0 f0
              wf_savings_plan load_savings_plan m1 a1 fit ex)
qed

subsection \<open>Claim C7\<close>

text \<open>
  C7. Loading drops exactly the rows that are entirely empty and the rows whose ticker or
  name cell is missing: the returned table has as many rows as the parsed table has rows
  passing \<open>row_kept\<close>, with the full schema its rows are the normalized kept
  rows in order, and the count aggregate of the summary is that number.
\<close>

theorem dropped_rows_and_count:
  assumes "wf_frame df" and "load_investment_data parse (Inr df) = (ev, Some t)"
  shows "length (rows t) = length (filter row_kept (rows df))
         \<and> (length (columns df) = 5 \<longrightarrow>
               rows t = map (norm_row parse (filter row_kept (rows df)))
                            (filter row_kept (rows df)))
         \<and> (\<forall>s. calculate_investment_summary (Some t) = Inr s \<longrightarrow> rows t \<noteq> [] \<longrightarrow>
               s key_count = Some (Num (real (length (filter row_kept (rows df))))))"
proof -
  have ok: "load_body parse df = Inr t" using assms(2) by (simp add: load_investment_data_Some)
  show ?thesis
  proof (rule load_body_Inr[OF assms(1) ok])
    fix p :: dataframe and sm sd
    assume g4: "col_fee \<in> set (columns t)"
      and g8: "length (rows t) = length (filter row_kept (rows df))"
    have full: "rows t = map (norm_row parse (filter row_kept (rows df)))
                             (filter row_kept (rows df))"
      if "length (columns df) = 5"
      using load_body_full_schema[OF assms(1) that, of parse] ok by simp
    have cnt: "s key_count = Some (Num (real (length (filter row_kept (rows df)))))"
      if "calculate_investment_summary (Some t) = Inr s" "rows t \<noteq> []" for s
    proof -
      have nonempty: "\<not> empty_frame t" using that(2) g4 by (auto simp: empty_frame_def)
      show ?thesis
      proof (rule summary_nonempty[OF that(1) nonempty])
        fix a b m f v
        assume s: "s = [key_count \<mapsto> Num (real (length (rows t))),
              key_monthly_total \<mapsto> a,
              key_annual_total \<mapsto> b,
              key_mean_discount \<mapsto> m,
              key_fee_total \<mapsto> f,
              key_savings \<mapsto> v]"
        show ?thesis using summary_lookup(1)[OF s] g8 by simp
      qed
    qed
    show ?thesis using g8 full cnt by blast
  qed
qed

theorem dropped_rows_and_count_witness:
  "wf_frame example_plan
   \<and> load_investment_data demo_parse (Inr example_plan) = ([], Some example_loaded)
   \<and> length (rows example_plan) = 4
   \<and> filter row_kept (rows example_plan)
         = [[Str ''AAPL'', Str ''Apple'', Str ''1000'', Num 5, Num (1 / 10)],
            [Str ''TSM'', Str ''TSMC'', Str ''1,000'', NaN, Num (1 / 10)]]
   \<and> length (rows example_loaded) = length (filter row_kept (rows example_plan))
   \<and> rows example_loaded = map (norm_row demo_parse (filter row_kept (rows example_plan)))
                                (filter row_kept (rows example_plan))
   \<and> calculate_investment_summary (Some example_loaded)
       = Inr [key_count \<mapsto> Num 2,
              key_monthly_total \<mapsto> Num 1000,
              key_annual_total \<mapsto> Num 12000,
              key_mean_discount \<mapsto> Num (1 / 10),
              key_fee_total \<mapsto> Num 12,
              key_savings \<mapsto> Num (51 / 10)]
   \<and> [key_count \<mapsto> Num 2,
        key_monthly_total \<mapsto> Num 1000,
        key_annual_total \<mapsto> Num 12000,
        key_mean_discount \<mapsto> Num (1 / 10),
        key_fee_total \<mapsto> Num 12,
        key_savings \<mapsto> Num (51 / 10)] key_count
       = Some (Num (real (length (filter row_kept (rows example_plan)))))"
proof -
  note inst = dropped_rows_and_count[OF wf_example_plan load_example_plan]
  have a: "length (rows example_plan) = 4" by (simp add: example_plan_def)
  have b: "filter row_kept (rows example_plan)
         = [[Str ''AAPL'', Str ''Apple'', Str ''1000'', Num 5, Num (1 / 10)],
            [Str ''TSM'', Str ''TSMC'', Str ''1,000'', NaN, Num (1 / 10)]]"
    by (simp add: example_plan_def row_kept_def notna_def)
  have five: "length (columns example_plan) = 5" by (simp add: example_plan_def)
  have ne: "rows example_loaded \<noteq> []" by (simp add: example_loaded_def)
  have c1: "length (rows example_loaded) = length (filter row_kept (rows example_plan))"
    using inst by blast
  have c2: "rows example_loaded = map (norm_row demo_parse (filter row_kept (rows example_plan)))
                                      (filter row_kept (rows example_plan))"
    using inst five by blast
  have c3: "[key_count \<mapsto> Num 2,
        key_monthly_total \<mapsto> Num 1000,
        key_annual_total \<mapsto> Num 12000,
        key_mean_discount \<mapsto> Num (1 / 10),
        key_fee_total \<mapsto> Num 12,
        key_savings \<mapsto> Num (51 / 10)] key_count
       = Some (Num (real (length (filter row_kept (rows example_plan)))))"
    using inst summary_example_loaded ne by blast
  show ?thesis
    by (intro conjI wf_example_plan load_example_plan a b c1 c2 summary_example_loaded c3)
qed

subsection \<open>Claim C8\<close>

text \<open>
  C8, evaluated where it fails. The loader turns the five-column sheet
  \<open>example_plan\<close> into a table of seven columns (the five canonical ones and
  the two derived). That table, written to CSV and parsed again, has seven columns, and
  loading it raises in the assignment of the five canonical names: the load returns None
  instead of the same table.
\<close>

theorem reload_of_exported_table:
  "load_investment_data demo_parse (Inr example_plan) = ([], Some example_loaded)
   \<and> length (columns example_loaded) = 7
   \<and> load_investment_data demo_parse (Inr example_loaded) = ([LoadFailed], None)"
proof -
  have "length (columns example_loaded) = 7" by (simp add: example_loaded_def)
  moreover from this have "load_investment_data demo_parse (Inr example_loaded) = ([LoadFailed], None)"
    by (simp add: load_investment_data_def load_body_wide handler_event_def)
  ultimately show ?thesis using load_example_plan by simp
qed

subsection \<open>Claim C9\<close>

text \<open>
  C9, as stated, fails. For a sheet with the five headers and no data row the loader
  returns an empty table, and the summary of that table is the empty dictionary: it holds
  no zero sums and no mean.
\<close>

theorem summary_of_empty_table_counterexample:
  "load_investment_data demo_parse
     (Inr \<lparr>columns = [''code'', ''name'', ''amount'', ''day'', ''discount''], rows = []\<rparr>)
     = ([], Some empty_plan)
   \<and> calculate_investment_summary (Some empty_plan) = Inr Map.empty
   \<and> \<not> (\<exists>s. calculate_investment_summary (Some empty_plan) = Inr s
              \<and> s key_monthly_total = Some (Num 0) \<and> s key_annual_total = Some (Num 0)
              \<and> s key_fee_total = Some (Num 0) \<and> s key_mean_discount = Some NaN)"
proof -
  have a: "load_investment_data demo_parse
     (Inr \<lparr>columns = [''code'', ''name'', ''amount'', ''day'', ''discount''], rows = []\<rparr>)
     = ([], Some empty_plan)"
    by code_simp
  have b: "calculate_investment_summary (Some empty_plan) = Inr Map.empty"
    by (simp add: calculate_investment_summary_def empty_frame_def empty_plan_def)
  show ?thesis using a b by simp
qed

text \<open>
  C9, amended. Applied to None or to an empty table, the summary succeeds and is the empty
  dictionary: it holds no aggregate at all, neither sums nor a mean.
\<close>

theorem summary_of_empty_table:
  "calculate_investment_summary None = Inr Map.empty
   \<and> (empty_frame df \<longrightarrow> calculate_investment_summary (Some df) = Inr Map.empty)"
  by (simp add: calculate_investment_summary_def)

theorem summary_of_empty_table_witness:
  "empty_frame empty_plan \<and> calculate_investment_summary None = Inr Map.empty
   \<and> calculate_investment_summary (Some empty_plan) = Inr Map.empty"
  using summary_of_empty_table[of empty_plan]
  by (simp add: empty_frame_def empty_plan_def)

subsection \<open>Claim C10\<close>

text \<open>
  C10. In the recurring-plan variant, a fetched CSV that parses to a table with fewer than
  two columns makes the load return None, with the message of the catch-all handler: the
  ticker and name filter selects column positions 0 and 1 whatever the table is, and the
  IndexError it raises is caught by the last \<^verbatim>\<open>except\<close> clause.
\<close>

theorem load_fewer_than_two_columns_fails:
  "length (columns df) < 2 \<Longrightarrow>
     load_investment_data parse (Inr df) = ([LoadFailed], None)"
  by (simp add: load_investment_data_def load_body_short handler_event_def)

theorem load_fewer_than_two_columns_fails_witness:
  "length (columns \<lparr>columns = [''code''], rows = [[Str ''AAPL'']]\<rparr>) < 2 \<and>
   load_investment_data (\<lambda>s. None) (Inr \<lparr>columns = [''code''], rows = [[Str ''AAPL'']]\<rparr>)
     = ([LoadFailed], None)"
  using load_fewer_than_two_columns_fails
          [of "\<lparr>columns = [''code''], rows = [[Str ''AAPL'']]\<rparr>" "\<lambda>s. None"]
  by simp

end
